theory Spec2Isabelle
  imports Complex_Main "HOL-Library.Word" "HOL-Library.Log_Nat" "HOL-Library.Multiset"
begin

unbundle bit_operations_syntax

section \<open>Florida Bird Quest: the page component of src/app/page.tsx\<close>

text \<open>
  The page is a React component. Its state (species, user, logs, challenge, q, filters)
  lives in \<open>useState\<close> cells; the derived values \<open>stats\<close>, \<open>filtered\<close> and
  \<open>todaysPicks\<close> are pure functions of that state, and the event handlers
  (\<open>toggleSeen\<close>, \<open>toggleTarget\<close>, the Count button, \<open>startChallenge\<close>,
  \<open>resetChallenge\<close>, \<open>addLog\<close>) replace state cells. The embedding below keeps the
  names of the source.
\<close>

subsection \<open>Strings\<close>

text \<open>
  A JavaScript string is a sequence of UTF-16 code units: \<open>length\<close> counts code units
  and \<open>charCodeAt\<close> reads one. \<open>ascii\<close> writes a literal whose characters are all
  below 128.
\<close>

type_synonym js_string = "16 word list"

definition ascii :: "string \<Rightarrow> js_string" where
  "ascii s = map of_char s"

text \<open>
  \<open>String.prototype.trim\<close> removes leading and trailing WhiteSpace and LineTerminator
  code points (ECMA-262): TAB, LF, VT, FF, CR, SP, NBSP, U+1680, U+2000 to U+200A, U+2028,
  U+2029, U+202F, U+205F, U+3000 and U+FEFF. All of them are single code units.
\<close>

definition isWhiteSpace :: "16 word \<Rightarrow> bool" where
  "isWhiteSpace c \<longleftrightarrow>
     c \<in> {0x09, 0x0A, 0x0B, 0x0C, 0x0D, 0x20, 0xA0, 0x1680, 0x2028, 0x2029, 0x202F,
          0x205F, 0x3000, 0xFEFF} \<or> (0x2000 \<le> c \<and> c \<le> 0x200A)"

definition trim :: "js_string \<Rightarrow> js_string" where
  "trim s = rev (dropWhile isWhiteSpace (rev (dropWhile isWhiteSpace s)))"

text \<open>
  \<open>String.prototype.includes\<close>: the argument occurs as a contiguous run of code units.
  \<open>startsWith\<close> is the comparison at one position, \<open>includes_s\<close> tries every position.
\<close>

fun startsWith :: "js_string \<Rightarrow> js_string \<Rightarrow> bool" where
  "startsWith s [] = True"
| "startsWith [] (c # t) = False"
| "startsWith (d # s) (c # t) = (d = c \<and> startsWith s t)"

fun includes_s :: "js_string \<Rightarrow> js_string \<Rightarrow> bool" where
  "includes_s [] t = (t = [])"
| "includes_s (d # s) t = (startsWith (d # s) t \<or> includes_s s t)"

subsection \<open>Data\<close>

text \<open>
  \<open>Months = Partial<Record<Month, boolean>>\<close>: an object from month names to flags,
  kept as the list of its own properties. An optional field (\<open>sci?: string\<close>) is an
  \<open>option\<close>. The field \<open>id\<close> of the three record types of the source is written
  \<open>id_s\<close>, \<open>id_u\<close>, \<open>id_l\<close>; fields of \<open>LogEntry\<close> that \<open>UserSpecies\<close> also has
  carry the suffix \<open>_l\<close>; \<open>notes\<close> of \<open>UserSpecies\<close> is \<open>notes_u\<close>.
\<close>

type_synonym Months = "(js_string \<times> bool) list"

record Species =
  id_s :: js_string
  common :: js_string
  sci :: "js_string option"
  family :: "js_string option"
  season :: "js_string option"
  habitat :: "js_string option"
  bestSpot :: "js_string option"
  months :: "Months option"

record UserSpecies =
  id_u :: js_string
  seen :: bool
  target :: bool
  date :: "js_string option"
  location :: "js_string option"
  county :: "js_string option"
  notes_u :: "js_string option"

datatype Kind = Raptors | Owls | Shorebirds | General

record LogEntry =
  id_l :: js_string
  date_l :: js_string
  speciesName :: js_string
  location_l :: js_string
  county_l :: "js_string option"
  kind :: Kind
  settings :: "js_string option"
  notes_l :: "js_string option"

record ChallengeState =
  active :: bool
  startedAt :: "js_string option"
  completedIds :: "js_string list"

text \<open>
  \<open>!!s.months[m]\<close>: the property \<open>m\<close> of the months object read as a truth value. A
  missing property is \<open>undefined\<close>, which is falsy.
\<close>

definition monthOn :: "Months \<Rightarrow> js_string \<Rightarrow> bool" where
  "monthOn ms m = (case map_of ms m of None \<Rightarrow> False | Some b \<Rightarrow> b)"

text \<open>
  \<^verbatim>\<open>const months = ["Jan","Feb",...,"Dec"] as const; type Month = typeof months[number];\<close>
  The array is \<open>months_const\<close> here (\<open>months\<close> is the field of \<open>Species\<close>). A
  value of type \<open>Month\<close>, such as \<open>filters.month\<close>, is one of its twelve members.
\<close>

definition months_const :: "js_string list" where
  "months_const = map ascii
     [''Jan'', ''Feb'', ''Mar'', ''Apr'', ''May'', ''Jun'', ''Jul'', ''Aug'', ''Sep'', ''Oct'', ''Nov'', ''Dec'']"

subsection \<open>Today's picks\<close>

text \<open>
  \<^verbatim>\<open>const remaining = species.filter((s) => !challenge.completedIds.includes(s.id));\<close>
  \<^verbatim>\<open>const inMonth = remaining.filter((s) => (s.months ? !!s.months[month] : true));\<close>
  \<^verbatim>\<open>const pool = inMonth.length ? inMonth : remaining;\<close>
\<close>

definition remaining :: "Species list \<Rightarrow> js_string list \<Rightarrow> Species list" where
  "remaining species cids = filter (\<lambda>s. id_s s \<notin> set cids) species"

definition inMonth :: "Species list \<Rightarrow> js_string list \<Rightarrow> js_string \<Rightarrow> Species list" where
  "inMonth species cids month =
     filter (\<lambda>s. case months s of None \<Rightarrow> True | Some ms \<Rightarrow> monthOn ms month)
       (remaining species cids)"

definition pool :: "Species list \<Rightarrow> js_string list \<Rightarrow> js_string \<Rightarrow> Species list" where
  "pool species cids month =
     (if length (inMonth species cids month) \<noteq> 0 then inMonth species cids month
      else remaining species cids)"

text \<open>
  \<^verbatim>\<open>let h = 0;\<close>
  \<^verbatim>\<open>for (let i = 0; i < seedStr.length; i++) h = (h * 31 + seedStr.charCodeAt(i)) >>> 0;\<close>
  \<open>h\<close> stays below \<open>2^32\<close>, so \<open>h * 31 + c\<close> is below \<open>2^53\<close> and exact as a
  Number; \<open>>>> 0\<close> reduces it modulo \<open>2^32\<close>. That is arithmetic on 32-bit words.
\<close>

function hashLoop :: "js_string \<Rightarrow> nat \<Rightarrow> 32 word \<Rightarrow> 32 word" where
  "hashLoop seedStr i h =
     (if i < length seedStr then hashLoop seedStr (Suc i) (h * 31 + ucast (seedStr ! i))
      else h)"
  by pat_completeness auto
termination
  by (relation "measure (\<lambda>(seedStr, i, h). length seedStr - i)") auto

declare hashLoop.simps [simp del]

definition daySeed :: "js_string \<Rightarrow> 32 word" where
  "daySeed seedStr = hashLoop seedStr 0 0"

text \<open>
  \<^verbatim>\<open>const ha = (h ^ a.id.length ^ a.common.length) >>> 0;\<close>
  \<open>^\<close> converts its operands with ToInt32, which keeps the low 32 bits, and \<open>>>> 0\<close>
  reads the result as unsigned. The comparator returns \<open>ha - hb\<close>, an exact integer.
\<close>

definition sortKey :: "32 word \<Rightarrow> Species \<Rightarrow> 32 word" where
  "sortKey h a = h XOR of_nat (length (id_s a)) XOR of_nat (length (common a))"

definition compareFn :: "32 word \<Rightarrow> Species \<Rightarrow> Species \<Rightarrow> int" where
  "compareFn h a b = uint (sortKey h a) - uint (sortKey h b)"

text \<open>
  \<open>Array.prototype.sort\<close> with a comparator is a stable sort (ECMA-262 since 2019): it
  returns the elements in an order where \<open>cmp x y \<le> 0\<close> for neighbours, elements that
  compare equal keeping their order. Stable insertion computes that order.
\<close>

fun insertBy :: "('a \<Rightarrow> 'a \<Rightarrow> int) \<Rightarrow> 'a \<Rightarrow> 'a list \<Rightarrow> 'a list" where
  "insertBy cmp x [] = [x]"
| "insertBy cmp x (y # ys) = (if cmp x y \<le> 0 then x # y # ys else y # insertBy cmp x ys)"

definition sortBy :: "('a \<Rightarrow> 'a \<Rightarrow> int) \<Rightarrow> 'a list \<Rightarrow> 'a list" where
  "sortBy cmp xs = foldr (insertBy cmp) xs []"

text \<open>
  \<^verbatim>\<open>const shuffled = [...pool].sort(...); return shuffled.slice(0, 5);\<close>
  \<open>seedStr\<close> is \<open>new Date().toISOString().slice(0, 10)\<close>, the UTC date at the time of
  the computation; it is an input here.
\<close>

definition shuffled :: "js_string \<Rightarrow> Species list \<Rightarrow> js_string list \<Rightarrow> js_string \<Rightarrow> Species list" where
  "shuffled seedStr species cids month =
     sortBy (compareFn (daySeed seedStr)) (pool species cids month)"

definition todaysPicks :: "js_string \<Rightarrow> Species list \<Rightarrow> js_string list \<Rightarrow> js_string \<Rightarrow> Species list" where
  "todaysPicks seedStr species cids month = take 5 (shuffled seedStr species cids month)"

subsection \<open>The date of today's picks\<close>











subsection \<open>Numbers\<close>

text \<open>
  A JavaScript Number is an IEEE 754 double. The values that occur in \<open>stats\<close> are
  non-negative and far from the ends of the exponent range, so a double is kept as the
  rational it denotes, and an arithmetic operation is the exact operation followed by
  rounding to 53 significant bits, ties to even. \<open>binade x\<close> is the exponent \<open>e\<close>
  with \<open>2^e \<le> x < 2^(e+1)\<close> for \<open>x > 0\<close>, found from the bit lengths of the
  numerator and the denominator. Array lengths are below \<open>2^32\<close> and are exact.
\<close>

definition binade :: "rat \<Rightarrow> int" where
  "binade x = (let p = fst (quotient_of x); q = snd (quotient_of x);
                   d = int (floorlog 2 (nat p)) - int (floorlog 2 (nat q))
               in if 2 powi d \<le> x then d else d - 1)"

definition roundHalfEven :: "rat \<Rightarrow> int" where
  "roundHalfEven x = (let n = \<lfloor>x\<rfloor>; f = x - of_int n
     in if f < 1 / 2 then n else if 1 / 2 < f then n + 1 else if even n then n else n + 1)"

definition roundToDouble :: "rat \<Rightarrow> rat" where
  "roundToDouble x = (if x = 0 then 0 else
     let k = binade x - 52 in of_int (roundHalfEven (x / 2 powi k)) * 2 powi k)"

definition fdiv :: "rat \<Rightarrow> rat \<Rightarrow> rat" where
  "fdiv x y = roundToDouble (x / y)"

definition fmul :: "rat \<Rightarrow> rat \<Rightarrow> rat" where
  "fmul x y = roundToDouble (x * y)"

text \<open>
  \<open>Math.round\<close> returns the integer closest to its argument, the one towards
  \<open>+\<infinity>\<close> on a tie.
\<close>

definition Math_round :: "rat \<Rightarrow> int" where
  "Math_round x = \<lfloor>x + 1 / 2\<rfloor>"

subsection \<open>The user object, stats and the filtered list\<close>

text \<open>
  \<open>user : Record<string, UserSpecies>\<close> is a plain object: the list of its own
  properties in insertion order, at most one per key. \<open>user[id]\<close> is \<open>map_of user id\<close>,
  \<open>Object.values(user)\<close> is \<open>map snd user\<close>, and the spread \<open>{ ...prev, [id]: v }\<close>
  is \<open>setProp prev id v\<close>: an existing key keeps its place, a new one goes last.
  Identifiers are taken not to name a property of \<open>Object.prototype\<close>.
\<close>

type_synonym UserMap = "(js_string \<times> UserSpecies) list"

fun setProp :: "('k \<times> 'v) list \<Rightarrow> 'k \<Rightarrow> 'v \<Rightarrow> ('k \<times> 'v) list" where
  "setProp [] k v = [(k, v)]"
| "setProp (p # ps) k v = (if fst p = k then (k, v) # ps else p # setProp ps k v)"

text \<open>
  \<^verbatim>\<open>const total = species.length;\<close>
  \<^verbatim>\<open>const seen = Object.values(user).filter((u) => u.seen).length;\<close>
  \<^verbatim>\<open>const targeted = Object.values(user).filter((u) => u.target).length;\<close>
  \<^verbatim>\<open>const pct = total ? Math.round((seen / total) * 100) : 0;\<close>
  The fields of the result are \<open>total\<close>, \<open>seen\<close> (here \<open>seen_st\<close>), \<open>targeted\<close>
  and \<open>pct\<close>.
\<close>

record Stats =
  total :: nat
  seen_st :: nat
  targeted :: nat
  pct :: int

definition stats :: "Species list \<Rightarrow> UserMap \<Rightarrow> Stats" where
  "stats species user =
     (let n = length species;
          nseen = length (filter seen (map snd user));
          ntargeted = length (filter target (map snd user))
      in \<lparr> total = n, seen_st = nseen, targeted = ntargeted,
           pct = (if n \<noteq> 0 then Math_round (fmul (fdiv (of_nat nseen) (of_nat n)) 100) else 0) \<rparr>)"

text \<open>
  \<open>filtered\<close>: three filters in a row over \<open>species\<close>. \<open>t = q.trim().toLowerCase()\<close>;
  \<open>!t\<close> and \<open>!m\<close> hold for the empty string; \<open>(s.sci || "")\<close> is the empty string
  for a missing field; \<open>!!user[s.id]?.target\<close> is false for a species without a row.
  \<open>String.prototype.toLowerCase\<close> follows the Unicode case mapping tables, which are
  not part of the program: it is the parameter \<open>toLowerCase\<close>.
\<close>

record Filters =
  targetsOnly :: bool
  month :: js_string

definition orEmpty :: "js_string option \<Rightarrow> js_string" where
  "orEmpty x = (case x of None \<Rightarrow> [] | Some s \<Rightarrow> s)"

definition filtered ::
  "(js_string \<Rightarrow> js_string) \<Rightarrow> Species list \<Rightarrow> UserMap \<Rightarrow> js_string \<Rightarrow> Filters \<Rightarrow> Species list" where
  "filtered toLowerCase species user q filters =
     (let t = toLowerCase (trim q) in
      filter (\<lambda>s. if t = [] then True
                  else includes_s (toLowerCase (common s)) t
                     \<or> includes_s (toLowerCase (orEmpty (sci s))) t
                     \<or> includes_s (toLowerCase (orEmpty (family s))) t
                     \<or> includes_s (toLowerCase (orEmpty (habitat s))) t)
        (filter (\<lambda>s. let m = month filters
                     in if m = [] then True
                        else case months s of None \<Rightarrow> True | Some ms \<Rightarrow> monthOn ms m)
          (filter (\<lambda>s. if targetsOnly filters
                       then (case map_of user (id_s s) of None \<Rightarrow> False | Some u \<Rightarrow> target u)
                       else True)
             species)))"

subsection \<open>Event handlers\<close>

text \<open>
  The state cells the handlers write. A handler is created by a render and closes over
  the state \<open>r\<close> of that render; what it passes to \<open>setUser\<close>, \<open>setChallenge\<close> and
  \<open>setLogs\<close> is an updater, which React applies to the state \<open>s\<close> that is current
  when the update is processed. React renders again before it delivers the next click or
  change event, so an event runs the handler of the current state: \<open>handleEvent\<close>.
\<close>

record Page =
  user :: UserMap
  logs :: "LogEntry list"
  challenge :: ChallengeState

text \<open>
  \<^verbatim>\<open>function ensureUserRow(id) { return user[id] || { id, seen: false, target: false }; }\<close>
\<close>

definition ensureUserRow :: "UserMap \<Rightarrow> js_string \<Rightarrow> UserSpecies" where
  "ensureUserRow usr i =
     (case map_of usr i of
        Some u \<Rightarrow> u
      | None \<Rightarrow> \<lparr> id_u = i, seen = False, target = False, date = None, location = None,
                 county = None, notes_u = None \<rparr>)"

text \<open>
  \<^verbatim>\<open>const current = ensureUserRow(id);\<close>
  \<^verbatim>\<open>setUser((prev) => ({ ...prev, [id]: { ...current, seen: !current.seen } }));\<close>
  \<^verbatim>\<open>if (!challenge.active) return;\<close>
  \<^verbatim>\<open>const nextSeen = !current.seen;\<close>
  \<^verbatim>\<open>if (nextSeen && !challenge.completedIds.includes(id) && challenge.completedIds.length < 100)\<close>
  \<^verbatim>\<open>  setChallenge((c) => ({ ...c, completedIds: [...c.completedIds, id] }));\<close>
\<close>

definition toggleSeen :: "Page \<Rightarrow> js_string \<Rightarrow> Page \<Rightarrow> Page" where
  "toggleSeen r i s =
     (let current = ensureUserRow (user r) i;
          s1 = s\<lparr>user := setProp (user s) i (current\<lparr>seen := \<not> seen current\<rparr>)\<rparr>
      in if \<not> active (challenge r) then s1
         else let nextSeen = \<not> seen current
              in if nextSeen \<and> i \<notin> set (completedIds (challenge r))
                      \<and> length (completedIds (challenge r)) < 100
                 then s1\<lparr>challenge :=
                        (challenge s1)\<lparr>completedIds := completedIds (challenge s1) @ [i]\<rparr>\<rparr>
                 else s1)"

text \<open>
  \<^verbatim>\<open>const current = ensureUserRow(id);\<close>
  \<^verbatim>\<open>setUser((prev) => ({ ...prev, [id]: { ...current, target: !current.target } }));\<close>
\<close>

definition toggleTarget :: "Page \<Rightarrow> js_string \<Rightarrow> Page \<Rightarrow> Page" where
  "toggleTarget r i s =
     (let current = ensureUserRow (user r) i
      in s\<lparr>user := setProp (user s) i (current\<lparr>target := \<not> target current\<rparr>)\<rparr>)"

text \<open>
  The Count button of a pick with identifier \<open>i\<close>:
  \<^verbatim>\<open>const completed = challenge.completedIds.includes(s.id);\<close>
  \<^verbatim>\<open>if (!challenge.active) return;\<close>
  \<^verbatim>\<open>if (completed) return;\<close>
  \<^verbatim>\<open>if (challenge.completedIds.length >= 100) return;\<close>
  \<^verbatim>\<open>setChallenge((c) => ({ ...c, completedIds: [...c.completedIds, s.id] }));\<close>
\<close>

definition countClick :: "Page \<Rightarrow> js_string \<Rightarrow> Page \<Rightarrow> Page" where
  "countClick r i s =
     (let completed = (i \<in> set (completedIds (challenge r)))
      in if \<not> active (challenge r) then s
         else if completed then s
         else if length (completedIds (challenge r)) \<ge> 100 then s
         else s\<lparr>challenge := (challenge s)\<lparr>completedIds := completedIds (challenge s) @ [i]\<rparr>\<rparr>)"

text \<open>
  \<^verbatim>\<open>setChallenge({ active: true, startedAt: new Date().toISOString(), completedIds: [] });\<close>
  \<^verbatim>\<open>setChallenge({ active: false, startedAt: undefined, completedIds: [] });\<close>
  The time stamp is an input.
\<close>

definition startChallenge :: "js_string \<Rightarrow> Page \<Rightarrow> Page" where
  "startChallenge now s =
     s\<lparr>challenge := \<lparr> active = True, startedAt = Some now, completedIds = [] \<rparr>\<rparr>"

definition resetChallenge :: "Page \<Rightarrow> Page" where
  "resetChallenge s =
     s\<lparr>challenge := \<lparr> active = False, startedAt = None, completedIds = [] \<rparr>\<rparr>"

datatype Event =
  ToggleSeen js_string
| ToggleTarget js_string
| Count js_string
| StartChallenge js_string
| ResetChallenge

fun handleEvent :: "Event \<Rightarrow> Page \<Rightarrow> Page" where
  "handleEvent (ToggleSeen i) s = toggleSeen s i s"
| "handleEvent (ToggleTarget i) s = toggleTarget s i s"
| "handleEvent (Count i) s = countClick s i s"
| "handleEvent (StartChallenge now) s = startChallenge now s"
| "handleEvent ResetChallenge s = resetChallenge s"

definition handleEvents :: "Event list \<Rightarrow> Page \<Rightarrow> Page" where
  "handleEvents es s = foldl (\<lambda>s e. handleEvent e s) s es"

subsection \<open>Logs\<close>

text \<open>
  \<^verbatim>\<open>function uid(prefix = "id") {\<close>
  \<^verbatim>\<open>  return `${prefix}-${Math.random().toString(16).slice(2)}-${Date.now().toString(16)}`; }\<close>
  \<open>rnd\<close> is the value of \<open>Math.random().toString(16).slice(2)\<close>, the hexadecimal
  digits of the fraction, and \<open>now\<close> is the value of \<open>Date.now()\<close>; both are inputs.
  \<open>toString16\<close> is \<open>Number.prototype.toString(16)\<close> on integers: lower-case digits,
  most significant first, after a minus sign for a negative number.
  \<^verbatim>\<open>function addLog(entry) { setLogs((prev) => [{ ...entry, id: uid("log") }, ...prev]); }\<close>
\<close>

definition hexDigit :: "nat \<Rightarrow> 16 word" where
  "hexDigit d = (if d < 10 then of_nat (48 + d) else of_nat (87 + d))"

function toHex :: "nat \<Rightarrow> js_string" where
  "toHex n = (if n < 16 then [hexDigit n] else toHex (n div 16) @ [hexDigit (n mod 16)])"
  by pat_completeness auto
termination
  by (relation "measure (\<lambda>n. n)") auto

declare toHex.simps [simp del]

definition toString16 :: "int \<Rightarrow> js_string" where
  "toString16 t = (if t < 0 then ascii ''-'' @ toHex (nat (- t)) else toHex (nat t))"

definition uid :: "js_string \<Rightarrow> js_string \<Rightarrow> int \<Rightarrow> js_string" where
  "uid prefix rnd now = prefix @ ascii ''-'' @ rnd @ ascii ''-'' @ toString16 now"

definition addLog :: "LogEntry \<Rightarrow> js_string \<Rightarrow> int \<Rightarrow> Page \<Rightarrow> Page" where
  "addLog entry rnd now s = s\<lparr>logs := entry\<lparr>id_l := uid (ascii ''log'') rnd now\<rparr> # logs s\<rparr>"

text \<open>
  The form's state and its \<open>onSubmit\<close>, with \<open>onAdd = addLog\<close> as the page passes it:
  \<^verbatim>\<open>if (!speciesName.trim() || !location.trim()) return;\<close>
  \<^verbatim>\<open>onAdd({ kind, date, speciesName: speciesName.trim(), location: location.trim(),\<close>
  \<^verbatim>\<open>  county: county.trim() || undefined, settings: settings.trim() || undefined,\<close>
  \<^verbatim>\<open>  notes: notes.trim() || undefined });\<close>
  \<^verbatim>\<open>setSpeciesName(""); setLocation(""); setCounty(""); setSettings(""); setNotes("");\<close>
  The entry handed to \<open>onAdd\<close> has no \<open>id\<close>; \<open>addLog\<close> sets it.
\<close>

record LogForm =
  kind_f :: Kind
  date_f :: js_string
  speciesName_f :: js_string
  location_f :: js_string
  county_f :: js_string
  settings_f :: js_string
  notes_f :: js_string

definition orUndefined :: "js_string \<Rightarrow> js_string option" where
  "orUndefined s = (if s = [] then None else Some s)"

definition onSubmit :: "LogForm \<Rightarrow> js_string \<Rightarrow> int \<Rightarrow> Page \<Rightarrow> LogForm \<times> Page" where
  "onSubmit form rnd now s =
     (if trim (speciesName_f form) = [] \<or> trim (location_f form) = [] then (form, s)
      else
        (form\<lparr>speciesName_f := [], location_f := [], county_f := [], settings_f := [],
              notes_f := []\<rparr>,
         addLog \<lparr> id_l = [], date_l = date_f form, speciesName = trim (speciesName_f form),
                  location_l = trim (location_f form),
                  county_l = orUndefined (trim (county_f form)), kind = kind_f form,
                  settings = orUndefined (trim (settings_f form)),
                  notes_l = orUndefined (trim (notes_f form)) \<rparr> rnd now s))"

section \<open>The specification's wording, and sample data\<close>

text \<open>
  The day seed as the specification describes it: the accumulator starts at 0; for each
  character it becomes accumulator times 31 plus the character code, truncated to
  unsigned 32 bits. The sort key as the specification describes it: the exclusive-or of
  the seed with the length of the identifier and the length of the common name.
\<close>

definition specSeed :: "js_string \<Rightarrow> nat" where
  "specSeed seedStr = foldl (\<lambda>acc c. (acc * 31 + unat c) mod 2 ^ 32) 0 seedStr"

definition specKey :: "nat \<Rightarrow> Species \<Rightarrow> nat" where
  "specKey seed s = seed XOR length (id_s s) XOR length (common s)"

text \<open>
  The narrowing as the specification words it for the daily picks: the species whose
  month-availability map includes the selected month as true, and the full pool of
  species not yet completed when there is none.
\<close>

definition specNarrowed :: "Species list \<Rightarrow> js_string list \<Rightarrow> js_string \<Rightarrow> Species list" where
  "specNarrowed species cids mon =
     filter (\<lambda>s. case months s of None \<Rightarrow> False | Some ms \<Rightarrow> map_of ms mon = Some True)
       (remaining species cids)"

definition specPool :: "Species list \<Rightarrow> js_string list \<Rightarrow> js_string \<Rightarrow> Species list" where
  "specPool species cids mon =
     (if specNarrowed species cids mon = [] then remaining species cids
      else specNarrowed species cids mon)"

text \<open>
  Sample species. \<open>snailKite\<close> is the one-element catalog the page falls back to when
  the species file cannot be loaded; the others carry short identifiers, and \<open>osprey\<close>
  and \<open>pefa\<close> declare no months.
\<close>

definition allYear :: Months where
  "allYear = map (\<lambda>m. (ascii m, True))
     [''Jan'', ''Feb'', ''Mar'', ''Apr'', ''May'', ''Jun'', ''Jul'', ''Aug'', ''Sep'', ''Oct'', ''Nov'', ''Dec'']"

definition snailKite :: Species where
  "snailKite = \<lparr> id_s = ascii ''snail-kite'', common = ascii ''Snail Kite'',
     sci = Some (ascii ''Rostrhamus sociabilis''), family = Some (ascii ''Accipitridae''),
     season = Some (ascii ''Resident''), habitat = Some (ascii ''Marsh''),
     bestSpot = Some (ascii ''Paynes Prairie (La Chua)''), months = Some allYear \<rparr>"

definition osprey :: Species where
  "osprey = \<lparr> id_s = ascii ''osprey'', common = ascii ''Osprey'',
     sci = None, family = None, season = None, habitat = None, bestSpot = None, months = None \<rparr>"

definition rosp :: Species where
  "rosp = \<lparr> id_s = ascii ''rosp'', common = ascii ''Roseate Spoonbill'',
     sci = None, family = None, season = None, habitat = None, bestSpot = None,
     months = Some allYear \<rparr>"

definition pefa :: Species where
  "pefa = \<lparr> id_s = ascii ''pefa'', common = ascii ''Peregrine Falcon'',
     sci = None, family = None, season = None, habitat = None, bestSpot = None, months = None \<rparr>"

text \<open>
  The invariant of the challenge state: the completed identifiers are pairwise different
  and there are at most 100 of them.
\<close>

definition challengeInv :: "ChallengeState \<Rightarrow> bool" where
  "challengeInv c \<longleftrightarrow> distinct (completedIds c) \<and> length (completedIds c) \<le> 100"

text \<open>
  Sample states: the state the page starts in, a state with a running challenge and no
  rows, and a state in which \<open>osprey\<close> has been seen and counted.
\<close>

definition emptyPage :: Page where
  "emptyPage = \<lparr> user = [], logs = [], challenge = \<lparr> active = False, startedAt = None, completedIds = [] \<rparr> \<rparr>"

definition activePage :: Page where
  "activePage = \<lparr> user = [], logs = [],
     challenge = \<lparr> active = True, startedAt = Some (ascii ''2026-11-03T12:00:00.000Z''), completedIds = [] \<rparr> \<rparr>"

definition seenPage :: Page where
  "seenPage = \<lparr> user = [(ascii ''osprey'', \<lparr> id_u = ascii ''osprey'', seen = True, target = False,
        date = None, location = None, county = None, notes_u = None \<rparr>)], logs = [],
     challenge = \<lparr> active = True, startedAt = Some (ascii ''2026-11-03T12:00:00.000Z''),
        completedIds = [ascii ''osprey''] \<rparr> \<rparr>"

text \<open>
  A string is blank when it is empty or consists of white space only.
\<close>

definition blank :: "js_string \<Rightarrow> bool" where
  "blank s \<longleftrightarrow> list_all isWhiteSpace s"

text \<open>
  Two states of the log form: one with a blank species name, one that is complete.
\<close>

definition blankForm :: LogForm where
  "blankForm = \<lparr> kind_f = General, date_f = ascii ''2026-11-03'', speciesName_f = ascii ''  '',
     location_f = ascii ''Lake Apopka'', county_f = [], settings_f = [], notes_f = [] \<rparr>"

definition ospreyForm :: LogForm where
  "ospreyForm = \<lparr> kind_f = Raptors, date_f = ascii ''2026-11-03'', speciesName_f = ascii '' Osprey'',
     location_f = ascii ''Lake Apopka '', county_f = ascii ''Orange'', settings_f = ascii '' '',
     notes_f = [] \<rparr>"

text \<open>
  \<open>isSubstring t s\<close>: \<open>t\<close> occurs in \<open>s\<close>. \<open>asciiLower\<close> is \<open>toLowerCase\<close> on
  strings of ASCII characters, for the examples. \<open>sampleUser\<close> is a user object with
  three rows.
\<close>

definition isSubstring :: "js_string \<Rightarrow> js_string \<Rightarrow> bool" where
  "isSubstring t s \<longleftrightarrow> (\<exists>u v. s = u @ t @ v)"

definition asciiLower :: "js_string \<Rightarrow> js_string" where
  "asciiLower s = map (\<lambda>c. if 0x41 \<le> c \<and> c \<le> 0x5A then c + 0x20 else c) s"

definition sampleUser :: UserMap where
  "sampleUser =
     [(ascii ''snail-kite'', \<lparr> id_u = ascii ''snail-kite'', seen = False, target = True,
         date = None, location = None, county = None, notes_u = None \<rparr>),
      (ascii ''osprey'', \<lparr> id_u = ascii ''osprey'', seen = True, target = True,
         date = Some (ascii ''2026-10-31''), location = Some (ascii ''Lake Apopka''),
         county = None, notes_u = None \<rparr>),
      (ascii ''rosp'', \<lparr> id_u = ascii ''rosp'', seen = True, target = False,
         date = None, location = None, county = None, notes_u = None \<rparr>)]"

text \<open>
  Instants, in milliseconds since the epoch, for the examples: \<open>morning\<close> is
  2026-11-03 15:00 UTC, \<open>evening\<close> is 2026-11-04 01:00 UTC and \<open>nextDay\<close> is
  2026-11-04 15:00 UTC. \<open>EST\<close> is the offset of a zone five hours behind UTC, where
  these instants are 10:00 and 20:00 on November 3 and 10:00 on November 4.
\<close>

definition morning :: int where "morning = 1793718000000"

text \<open>
  The code unit of the hyphen, and the number a string of lower-case hexadecimal digits
  denotes.
\<close>

definition dash :: "16 word" where
  "dash = 0x2D"

definition digitVal :: "16 word \<Rightarrow> nat" where
  "digitVal c = (if c \<le> 57 then unat c - 48 else unat c - 87)"

definition hexVal :: "js_string \<Rightarrow> nat" where
  "hexVal s = foldl (\<lambda>a c. 16 * a + digitVal c) 0 s"

text \<open>
  A species whose month map names two months only: present in January, absent in June.
\<close>

definition redKnot :: Species where
  "redKnot = \<lparr> id_s = ascii ''red-knot'', common = ascii ''Red Knot'',
     sci = None, family = None, season = None, habitat = None, bestSpot = None,
     months = Some [(ascii ''Jan'', True), (ascii ''Jun'', False)] \<rparr>"

section \<open>Today's picks\<close>

subsection \<open>The seed loop and the comparator sort\<close>

lemma hashLoop_foldl:
  "hashLoop seedStr i h = foldl (\<lambda>a c. a * 31 + ucast c) h (drop i seedStr)"
proof (induction seedStr i h rule: hashLoop.induct)
  case (1 seedStr i h)
  show ?case
  proof (cases "i < length seedStr")
    case True
    then have "drop i seedStr = seedStr ! i # drop (Suc i) seedStr"
      by (simp add: Cons_nth_drop_Suc)
    with True 1 show ?thesis
      by (subst hashLoop.simps) simp
  next
    case False
    then show ?thesis
      by (subst hashLoop.simps) simp
  qed
qed

lemma daySeed_foldl: "daySeed seedStr = foldl (\<lambda>a c. a * 31 + ucast c) 0 seedStr"
  by (simp add: daySeed_def hashLoop_foldl)

lemma unat_ucast_code_unit: "unat (ucast (c :: 16 word) :: 32 word) = unat c"
proof -
  have "unat c < 2 ^ 16"
    using unsigned_less [of c] by simp
  then have "unat c < 2 ^ 32"
    by simp
  then show ?thesis
    by (simp add: unsigned_ucast_eq take_bit_nat_eq_self)
qed

lemma unat_hash_step:
  "unat ((a :: 32 word) * 31 + ucast (c :: 16 word)) = (unat a * 31 + unat c) mod 2 ^ 32"
  by (simp add: unat_word_ariths mod_simps unat_ucast_code_unit)

lemma unat_foldl_hash:
  "unat (foldl (\<lambda>a c. a * 31 + ucast (c :: 16 word)) (h :: 32 word) cs)
     = foldl (\<lambda>acc c. (acc * 31 + unat c) mod 2 ^ 32) (unat h) cs"
  by (induction cs arbitrary: h) (simp_all add: unat_hash_step)

lemma unat_daySeed: "unat (daySeed seedStr) = specSeed seedStr"
  by (simp add: daySeed_foldl specSeed_def unat_foldl_hash)

lemma insertBy_compareFn: "insertBy (compareFn h) x ys = insort_key (sortKey h) x ys"
  by (induction ys) (simp_all add: compareFn_def word_le_def)

lemma sortBy_compareFn: "sortBy (compareFn h) xs = sort_key (sortKey h) xs"
  by (induction xs) (simp_all add: sortBy_def sort_key_def insertBy_compareFn)

lemma insort_key_cong_le:
  assumes "\<forall>y \<in> set ys. (f x \<le> f y) = (g x \<le> g y)"
  shows "insort_key f x ys = insort_key g x ys"
  using assms by (induction ys) simp_all

lemma sort_key_cong_le:
  assumes "\<forall>x \<in> set xs. \<forall>y \<in> set xs. (f x \<le> f y) = (g x \<le> g y)"
  shows "sort_key f xs = sort_key g xs"
  using assms
proof (induction xs)
  case Nil
  show ?case by simp
next
  case (Cons a xs)
  then have IH: "sort_key f xs = sort_key g xs" by simp
  have "insort_key f a (sort_key g xs) = insort_key g a (sort_key g xs)"
    by (rule insort_key_cong_le) (use Cons.prems in simp)
  with IH show ?case by (simp add: sort_key_def)
qed

lemma unat_sortKey:
  assumes "length (id_s s) < 2 ^ 32" "length (common s) < 2 ^ 32"
  shows "unat (sortKey h s) = specKey (unat h) s"
  using assms by (simp add: sortKey_def specKey_def unsigned_xor_eq unat_of_nat)

lemma mset_sortBy: "mset (sortBy (compareFn h) xs) = mset xs"
  by (simp add: sortBy_compareFn)

lemma length_sortBy: "length (sortBy (compareFn h) xs) = length xs"
  by (simp add: sortBy_compareFn)

lemma mset_take_subseteq: "mset (take n xs) \<subseteq># mset xs"
  by (metis append_take_drop_id mset_append mset_subset_eq_add_left)

lemma avail_iff:
  "(case months s of None \<Rightarrow> True | Some ms \<Rightarrow> monthOn ms mon) \<longleftrightarrow>
     months s = None \<or> (\<exists>ms. months s = Some ms \<and> map_of ms mon = Some True)"
  by (auto simp: monthOn_def split: option.splits)

lemma mset_pool_subseteq: "mset (pool species cids mon) \<subseteq># mset (remaining species cids)"
  by (simp add: pool_def inMonth_def)



lemmas ex_defs = snailKite_def osprey_def rosp_def pefa_def allYear_def ascii_def

lemmas picks_defs = todaysPicks_def shuffled_def pool_def inMonth_def remaining_def monthOn_def
  sortBy_def compareFn_def sortKey_def daySeed_foldl

lemma ex_lengths:
  "length (id_s snailKite) = 10" "length (common snailKite) = 10"
  "length (id_s rosp) = 4" "length (common rosp) = 17"
  "length (id_s pefa) = 4" "length (common pefa) = 16"
  by (simp_all add: rosp_def pefa_def snailKite_def ascii_def)

subsection \<open>The pool and the size of the result\<close>

text \<open>
  Claim C1, as the code has it. The candidate pool \<open>remaining\<close> is the catalog without
  the species whose identifier is in the completed list. \<open>inMonth\<close> keeps of it the
  species that declare no month map or whose map has the selected month as true; the
  pool is \<open>inMonth\<close>, or all of \<open>remaining\<close> when \<open>inMonth\<close> is empty. The result has
  \<open>min 5 |pool|\<close> entries, so at most 5 and at most the size of the pool, and every
  entry is drawn from the pool (no more often than it occurs there), which is drawn from
  \<open>remaining\<close>.
\<close>

theorem todaysPicks_from_pool:
  "(\<forall>s. s \<in> set (remaining species cids) \<longleftrightarrow> s \<in> set species \<and> id_s s \<notin> set cids)
   \<and> (\<forall>s. s \<in> set (inMonth species cids mon) \<longleftrightarrow>
          s \<in> set (remaining species cids)
          \<and> (months s = None \<or> (\<exists>ms. months s = Some ms \<and> map_of ms mon = Some True)))
   \<and> pool species cids mon =
         (if inMonth species cids mon = [] then remaining species cids
          else inMonth species cids mon)
   \<and> length (todaysPicks seedStr species cids mon) = min 5 (length (pool species cids mon))
   \<and> mset (todaysPicks seedStr species cids mon) \<subseteq># mset (pool species cids mon)
   \<and> mset (pool species cids mon) \<subseteq># mset (remaining species cids)"
proof -
  have 1: "\<forall>s. s \<in> set (remaining species cids) \<longleftrightarrow> s \<in> set species \<and> id_s s \<notin> set cids"
    by (auto simp: remaining_def)
  have 2: "\<forall>s. s \<in> set (inMonth species cids mon) \<longleftrightarrow>
          s \<in> set (remaining species cids)
          \<and> (months s = None \<or> (\<exists>ms. months s = Some ms \<and> map_of ms mon = Some True))"
    by (auto simp: inMonth_def avail_iff)
  have 3: "pool species cids mon =
         (if inMonth species cids mon = [] then remaining species cids
          else inMonth species cids mon)"
    by (simp add: pool_def)
  have 4: "length (todaysPicks seedStr species cids mon) = min 5 (length (pool species cids mon))"
    by (simp add: todaysPicks_def shuffled_def length_sortBy min.commute)
  have "mset (take 5 (shuffled seedStr species cids mon))
          \<subseteq># mset (shuffled seedStr species cids mon)"
    by (rule mset_take_subseteq)
  then have 5: "mset (todaysPicks seedStr species cids mon) \<subseteq># mset (pool species cids mon)"
    by (simp add: todaysPicks_def shuffled_def mset_sortBy)
  note 6 = mset_pool_subseteq [of species cids mon]
  from 1 2 3 4 5 6 show ?thesis by blast
qed

text \<open>
  Claim C1 as worded narrows to the species whose month map includes the month. On the
  catalog \<open>[osprey, snailKite]\<close> with nothing completed and month Nov, that pool is
  \<open>[snailKite]\<close>; the code also keeps \<open>osprey\<close>, which declares no month map, and
  returns two species.
\<close>

theorem todaysPicks_spec_narrowing_counterexample:
  "osprey \<in> set (todaysPicks (ascii ''2026-11-03'') [osprey, snailKite] [] (ascii ''Nov''))
   \<and> specPool [osprey, snailKite] [] (ascii ''Nov'') = [snailKite]
   \<and> osprey \<notin> set (specPool [osprey, snailKite] [] (ascii ''Nov''))
   \<and> \<not> length (todaysPicks (ascii ''2026-11-03'') [osprey, snailKite] [] (ascii ''Nov''))
         \<le> length (specPool [osprey, snailKite] [] (ascii ''Nov''))"
  by (simp add: picks_defs ex_defs specPool_def specNarrowed_def)

subsection \<open>The seed and the order\<close>

text \<open>
  Claim C2. The seed loop computes the rolling hash of the specification, the comparator
  sort orders the pool by the specification's key (a stable sort, ascending), and the
  result is the first 5 entries of that order. Identifier and name lengths are below
  \<open>2^32\<close>, as the lengths of JavaScript strings are.
\<close>

theorem todaysPicks_seed_and_order:
  assumes "\<forall>s \<in> set species. length (id_s s) < 2 ^ 32 \<and> length (common s) < 2 ^ 32"
  shows "unat (daySeed seedStr) = specSeed seedStr
     \<and> shuffled seedStr species cids mon
         = sort_key (specKey (specSeed seedStr)) (pool species cids mon)
     \<and> sorted (map (specKey (specSeed seedStr)) (shuffled seedStr species cids mon))
     \<and> todaysPicks seedStr species cids mon
         = take 5 (sort_key (specKey (specSeed seedStr)) (pool species cids mon))"
proof -
  let ?h = "daySeed seedStr"
  let ?pool = "pool species cids mon"
  have sub: "set ?pool \<subseteq> set species"
    by (auto simp: pool_def inMonth_def remaining_def)
  have key: "unat (sortKey ?h s) = specKey (specSeed seedStr) s" if "s \<in> set ?pool" for s
  proof -
    from that sub assms have "length (id_s s) < 2 ^ 32" "length (common s) < 2 ^ 32"
      by auto
    then show ?thesis
      by (simp add: unat_sortKey unat_daySeed)
  qed
  have "sort_key (sortKey ?h) ?pool = sort_key (specKey (specSeed seedStr)) ?pool"
  proof (rule sort_key_cong_le, intro ballI)
    fix x y
    assume "x \<in> set ?pool" "y \<in> set ?pool"
    then show "(sortKey ?h x \<le> sortKey ?h y)
        = (specKey (specSeed seedStr) x \<le> specKey (specSeed seedStr) y)"
      by (simp add: word_le_nat_alt key)
  qed
  then have sh: "shuffled seedStr species cids mon
      = sort_key (specKey (specSeed seedStr)) ?pool"
    by (simp add: shuffled_def sortBy_compareFn)
  have "sorted (map (specKey (specSeed seedStr)) (sort_key (specKey (specSeed seedStr)) ?pool))"
    by (rule sorted_sort_key)
  with sh show ?thesis
    by (simp add: todaysPicks_def unat_daySeed)
qed

theorem todaysPicks_seed_and_order_witness:
  "unat (daySeed (ascii ''2026-11-03'')) = 1162589253
   \<and> todaysPicks (ascii ''2026-11-03'') [pefa, rosp, snailKite] [] (ascii ''Nov'')
       = [snailKite, rosp, pefa]
   \<and> todaysPicks (ascii ''2026-11-04'') [pefa, rosp, snailKite] [] (ascii ''Nov'')
       = [snailKite, pefa, rosp]"
proof -
  have len: "\<forall>s \<in> set [pefa, rosp, snailKite]. length (id_s s) < 2 ^ 32 \<and> length (common s) < 2 ^ 32"
    by (simp add: rosp_def pefa_def snailKite_def ascii_def)
  have p: "pool [pefa, rosp, snailKite] [] (ascii ''Nov'') = [pefa, rosp, snailKite]"
    by (simp add: pool_def inMonth_def remaining_def monthOn_def rosp_def pefa_def snailKite_def
        allYear_def ascii_def)
  have s3: "specSeed (ascii ''2026-11-03'') = 1162589253"
    by (simp add: specSeed_def ascii_def)
  have s4: "specSeed (ascii ''2026-11-04'') = 1162589254"
    by (simp add: specSeed_def ascii_def)
  have k3: "sort_key (specKey 1162589253) [pefa, rosp, snailKite] = [snailKite, rosp, pefa]"
    by (simp add: specKey_def ex_lengths)
  have k4: "sort_key (specKey 1162589254) [pefa, rosp, snailKite] = [snailKite, pefa, rosp]"
    by (simp add: specKey_def ex_lengths)
  note a = todaysPicks_seed_and_order [OF len, of "ascii ''2026-11-03''" "[]" "ascii ''Nov''",
      unfolded p s3 k3]
  note b = todaysPicks_seed_and_order [OF len, of "ascii ''2026-11-04''" "[]" "ascii ''Nov''",
      unfolded p s4 k4]
  from a b show ?thesis
    by simp
qed

subsection \<open>What the result depends on\<close>
















section \<open>Event handlers\<close>

subsection \<open>Rows of the user object\<close>

lemma map_of_setProp: "map_of (setProp ps k v) = (map_of ps)(k \<mapsto> v)"
  by (induction ps) (auto simp: fun_eq_iff)

lemma map_of_setProp_same: "map_of (setProp ps k v) k = Some v"
  by (simp add: map_of_setProp)

lemma map_of_setProp_other: "j \<noteq> k \<Longrightarrow> map_of (setProp ps k v) j = map_of ps j"
  by (simp add: map_of_setProp)

lemma user_toggleSeen:
  "user (toggleSeen r i s)
     = setProp (user s) i ((ensureUserRow (user r) i)\<lparr>seen := \<not> seen (ensureUserRow (user r) i)\<rparr>)"
  by (simp add: toggleSeen_def Let_def)

lemma user_toggleTarget:
  "user (toggleTarget r i s)
     = setProp (user s) i ((ensureUserRow (user r) i)\<lparr>target := \<not> target (ensureUserRow (user r) i)\<rparr>)"
  by (simp add: toggleTarget_def Let_def)

lemma ensureUserRow_setProp: "ensureUserRow (setProp ps i v) i = v"
  by (simp add: ensureUserRow_def map_of_setProp)

subsection \<open>The completed list\<close>

lemma completedIds_toggleSeen:
  "completedIds (challenge (toggleSeen s i s)) =
     (if active (challenge s) \<and> \<not> seen (ensureUserRow (user s) i)
         \<and> i \<notin> set (completedIds (challenge s)) \<and> length (completedIds (challenge s)) < 100
      then completedIds (challenge s) @ [i] else completedIds (challenge s))"
  by (simp add: toggleSeen_def Let_def)

lemma completedIds_countClick:
  "completedIds (challenge (countClick s i s)) =
     (if active (challenge s)
         \<and> i \<notin> set (completedIds (challenge s)) \<and> length (completedIds (challenge s)) < 100
      then completedIds (challenge s) @ [i] else completedIds (challenge s))"
  by (simp add: countClick_def Let_def)

lemma completedIds_full:
  assumes "length (completedIds (challenge s)) = 100"
  shows "completedIds (challenge (handleEvent (ToggleSeen i) s)) = completedIds (challenge s)"
    and "completedIds (challenge (handleEvent (Count i) s)) = completedIds (challenge s)"
  using assms by (simp_all add: completedIds_toggleSeen completedIds_countClick)

lemma challengeInv_handleEvent:
  assumes "challengeInv (challenge s)"
  shows "challengeInv (challenge (handleEvent e s))"
proof (cases e)
  case (ToggleSeen i)
  with assms show ?thesis
    by (simp add: challengeInv_def completedIds_toggleSeen)
next
  case (ToggleTarget i)
  with assms show ?thesis
    by (simp add: toggleTarget_def Let_def)
next
  case (Count i)
  with assms show ?thesis
    by (simp add: challengeInv_def completedIds_countClick)
next
  case (StartChallenge now)
  then show ?thesis
    by (simp add: challengeInv_def startChallenge_def)
next
  case ResetChallenge
  then show ?thesis
    by (simp add: challengeInv_def resetChallenge_def)
qed

lemma challengeInv_handleEvents:
  "challengeInv (challenge s) \<Longrightarrow> challengeInv (challenge (handleEvents es s))"
  unfolding handleEvents_def
  by (induction es arbitrary: s) (simp_all add: challengeInv_handleEvent)

lemma run_example:
  "completedIds (challenge (handleEvents
      [ToggleSeen (ascii ''osprey''), StartChallenge (ascii ''2026-11-03T12:00:00.000Z''),
       ToggleSeen (ascii ''rosp''), ToggleSeen (ascii ''rosp''), ToggleSeen (ascii ''rosp''),
       Count (ascii ''rosp''), Count (ascii ''pefa''), ToggleSeen (ascii ''osprey''),
       ToggleSeen (ascii ''osprey'')] emptyPage))
    = [ascii ''rosp'', ascii ''pefa'', ascii ''osprey'']"
  by (simp add: handleEvents_def emptyPage_def toggleSeen_def countClick_def startChallenge_def
      ensureUserRow_def Let_def ascii_def)

subsection \<open>Toggling seen\<close>

text \<open>
  Claim C4. When \<open>toggleSeen\<close> takes a species from not seen to seen while the challenge
  is active, the identifier is not in the completed list and the list has fewer than 100
  members, the identifier is appended to the list. When it takes a species from seen to
  not seen the challenge state is unchanged, and no toggle removes a member of the
  completed list. When the challenge is inactive the challenge state is unchanged.
\<close>

theorem toggleSeen_auto_count:
  "(\<not> seen (ensureUserRow (user s) i) \<and> active (challenge s)
      \<and> i \<notin> set (completedIds (challenge s)) \<and> length (completedIds (challenge s)) < 100
     \<longrightarrow> seen (ensureUserRow (user (handleEvent (ToggleSeen i) s)) i)
         \<and> completedIds (challenge (handleEvent (ToggleSeen i) s)) = completedIds (challenge s) @ [i])
   \<and> (seen (ensureUserRow (user s) i)
     \<longrightarrow> \<not> seen (ensureUserRow (user (handleEvent (ToggleSeen i) s)) i)
         \<and> challenge (handleEvent (ToggleSeen i) s) = challenge s)
   \<and> set (completedIds (challenge s)) \<subseteq> set (completedIds (challenge (handleEvent (ToggleSeen i) s)))
   \<and> (\<not> active (challenge s) \<longrightarrow> challenge (handleEvent (ToggleSeen i) s) = challenge s)"
  by (auto simp: toggleSeen_def Let_def ensureUserRow_setProp)

theorem toggleSeen_auto_count_witness:
  "completedIds (challenge (handleEvent (ToggleSeen (ascii ''osprey'')) activePage)) = [ascii ''osprey'']
   \<and> seen (ensureUserRow (user (handleEvent (ToggleSeen (ascii ''osprey'')) activePage)) (ascii ''osprey''))
   \<and> \<not> seen (ensureUserRow (user (handleEvent (ToggleSeen (ascii ''osprey'')) seenPage)) (ascii ''osprey''))
   \<and> challenge (handleEvent (ToggleSeen (ascii ''osprey'')) seenPage) = challenge seenPage
   \<and> completedIds (challenge seenPage) = [ascii ''osprey'']
   \<and> challenge (handleEvent (ToggleSeen (ascii ''osprey'')) emptyPage) = challenge emptyPage"
proof -
  have a: "\<not> seen (ensureUserRow (user activePage) (ascii ''osprey'')) \<and> active (challenge activePage)
      \<and> ascii ''osprey'' \<notin> set (completedIds (challenge activePage))
      \<and> length (completedIds (challenge activePage)) < 100"
    by (simp add: activePage_def ensureUserRow_def)
  have b: "seen (ensureUserRow (user seenPage) (ascii ''osprey''))"
    by (simp add: seenPage_def ensureUserRow_def)
  have c: "\<not> active (challenge emptyPage)"
    by (simp add: emptyPage_def)
  have d: "completedIds (challenge activePage) = []" "completedIds (challenge seenPage) = [ascii ''osprey'']"
    by (simp_all add: activePage_def seenPage_def)
  from toggleSeen_auto_count [of activePage "ascii ''osprey''"] a d
  have 1: "completedIds (challenge (handleEvent (ToggleSeen (ascii ''osprey'')) activePage)) = [ascii ''osprey'']
     \<and> seen (ensureUserRow (user (handleEvent (ToggleSeen (ascii ''osprey'')) activePage)) (ascii ''osprey''))"
    by simp
  from toggleSeen_auto_count [of seenPage "ascii ''osprey''"] b
  have 2: "\<not> seen (ensureUserRow (user (handleEvent (ToggleSeen (ascii ''osprey'')) seenPage)) (ascii ''osprey''))
     \<and> challenge (handleEvent (ToggleSeen (ascii ''osprey'')) seenPage) = challenge seenPage"
    by blast
  from toggleSeen_auto_count [of emptyPage "ascii ''osprey''"] c
  have 3: "challenge (handleEvent (ToggleSeen (ascii ''osprey'')) emptyPage) = challenge emptyPage"
    by blast
  from 1 2 3 d show ?thesis by blast
qed

text \<open>
  Claim C8. Two \<open>toggleSeen\<close> events for one identifier give that species' row back,
  and so its seen value, one event inverting it; the same for \<open>toggleTarget\<close> and the
  target value. A row that did not exist is read as the default row before and exists
  with the default values after.
\<close>

theorem toggle_twice:
  "ensureUserRow (user (handleEvent (ToggleSeen i) (handleEvent (ToggleSeen i) s))) i
     = ensureUserRow (user s) i
   \<and> seen (ensureUserRow (user (handleEvent (ToggleSeen i) (handleEvent (ToggleSeen i) s))) i)
     = seen (ensureUserRow (user s) i)
   \<and> seen (ensureUserRow (user (handleEvent (ToggleSeen i) s)) i)
     = (\<not> seen (ensureUserRow (user s) i))
   \<and> ensureUserRow (user (handleEvent (ToggleTarget i) (handleEvent (ToggleTarget i) s))) i
     = ensureUserRow (user s) i
   \<and> target (ensureUserRow (user (handleEvent (ToggleTarget i) (handleEvent (ToggleTarget i) s))) i)
     = target (ensureUserRow (user s) i)
   \<and> target (ensureUserRow (user (handleEvent (ToggleTarget i) s)) i)
     = (\<not> target (ensureUserRow (user s) i))"
  by (simp add: user_toggleSeen user_toggleTarget ensureUserRow_setProp)

subsection \<open>Toggling target\<close>

text \<open>
  Claim C10. \<open>toggleTarget\<close> stores for the identifier the row it read, with the target
  flag inverted and every other field (\<open>id\<close>, \<open>seen\<close>, \<open>date\<close>, \<open>location\<close>,
  \<open>county\<close>, \<open>notes\<close>) as it was; when there was no row it stores the default row
  with \<open>seen = false\<close> and \<open>target = true\<close>. The rows of all other identifiers, the
  challenge state and the logs are unchanged.
\<close>

theorem toggleTarget_frame:
  "map_of (user (handleEvent (ToggleTarget i) s)) i
      = Some ((ensureUserRow (user s) i)\<lparr>target := \<not> target (ensureUserRow (user s) i)\<rparr>)
   \<and> (map_of (user s) i = None \<longrightarrow>
        map_of (user (handleEvent (ToggleTarget i) s)) i
          = Some \<lparr> id_u = i, seen = False, target = True, date = None, location = None,
                   county = None, notes_u = None \<rparr>)
   \<and> (\<forall>u. map_of (user s) i = Some u \<longrightarrow>
        map_of (user (handleEvent (ToggleTarget i) s)) i = Some (u\<lparr>target := \<not> target u\<rparr>))
   \<and> (\<forall>j. j \<noteq> i \<longrightarrow> map_of (user (handleEvent (ToggleTarget i) s)) j = map_of (user s) j)
   \<and> challenge (handleEvent (ToggleTarget i) s) = challenge s
   \<and> logs (handleEvent (ToggleTarget i) s) = logs s"
  by (auto simp: toggleTarget_def Let_def map_of_setProp ensureUserRow_def)

theorem toggleTarget_frame_witness:
  "map_of (user (handleEvent (ToggleTarget (ascii ''rosp'')) seenPage)) (ascii ''rosp'')
      = Some \<lparr> id_u = ascii ''rosp'', seen = False, target = True, date = None, location = None,
                county = None, notes_u = None \<rparr>
   \<and> map_of (user (handleEvent (ToggleTarget (ascii ''osprey'')) seenPage)) (ascii ''osprey'')
      = Some \<lparr> id_u = ascii ''osprey'', seen = True, target = True, date = None, location = None,
                county = None, notes_u = None \<rparr>
   \<and> map_of (user (handleEvent (ToggleTarget (ascii ''rosp'')) seenPage)) (ascii ''osprey'')
      = map_of (user seenPage) (ascii ''osprey'')
   \<and> challenge (handleEvent (ToggleTarget (ascii ''rosp'')) seenPage) = challenge seenPage"
proof -
  have a: "map_of (user seenPage) (ascii ''rosp'') = None"
    by (simp add: seenPage_def ascii_def)
  have b: "map_of (user seenPage) (ascii ''osprey'')
      = Some \<lparr> id_u = ascii ''osprey'', seen = True, target = False, date = None, location = None,
                county = None, notes_u = None \<rparr>"
    by (simp add: seenPage_def)
  have c: "ascii ''osprey'' \<noteq> ascii ''rosp''"
    by (simp add: ascii_def)
  from toggleTarget_frame [of "ascii ''rosp''" seenPage] a c
  have 1: "map_of (user (handleEvent (ToggleTarget (ascii ''rosp'')) seenPage)) (ascii ''rosp'')
      = Some \<lparr> id_u = ascii ''rosp'', seen = False, target = True, date = None, location = None,
                county = None, notes_u = None \<rparr>
     \<and> map_of (user (handleEvent (ToggleTarget (ascii ''rosp'')) seenPage)) (ascii ''osprey'')
      = map_of (user seenPage) (ascii ''osprey'')
     \<and> challenge (handleEvent (ToggleTarget (ascii ''rosp'')) seenPage) = challenge seenPage"
    by blast
  from toggleTarget_frame [of "ascii ''osprey''" seenPage] b
  have 2: "map_of (user (handleEvent (ToggleTarget (ascii ''osprey'')) seenPage)) (ascii ''osprey'')
      = Some \<lparr> id_u = ascii ''osprey'', seen = True, target = True, date = None, location = None,
                county = None, notes_u = None \<rparr>"
    by (simp add: ensureUserRow_def)
  from 1 2 show ?thesis by blast
qed

subsection \<open>The invariant of the challenge\<close>

text \<open>
  Claim C5. Every event (a seen toggle with its automatic count, a target toggle, a manual
  count, start, reset) preserves that the completed list has no duplicates and at most
  100 members, and so does every sequence of events from a state with an empty completed
  list: no sequence of events takes the list beyond 100 members.
\<close>

theorem challenge_invariant:
  "(distinct (completedIds (challenge s)) \<and> length (completedIds (challenge s)) \<le> 100 \<longrightarrow>
      distinct (completedIds (challenge (handleEvent e s)))
      \<and> length (completedIds (challenge (handleEvent e s))) \<le> 100)
   \<and> (completedIds (challenge s0) = [] \<longrightarrow>
      distinct (completedIds (challenge (handleEvents es s0)))
      \<and> length (completedIds (challenge (handleEvents es s0))) \<le> 100)"
proof -
  have "challengeInv (challenge s0)" if "completedIds (challenge s0) = []"
    using that by (simp add: challengeInv_def)
  then have "challengeInv (challenge (handleEvents es s0))" if "completedIds (challenge s0) = []"
    using that by (intro challengeInv_handleEvents)
  with challengeInv_handleEvent [of s e] show ?thesis
    unfolding challengeInv_def by blast
qed

theorem challenge_invariant_witness:
  "distinct (completedIds (challenge (handleEvent (ToggleSeen (ascii ''rosp'')) seenPage)))
   \<and> length (completedIds (challenge (handleEvent (ToggleSeen (ascii ''rosp'')) seenPage))) \<le> 100
   \<and> completedIds (challenge (handleEvent (ToggleSeen (ascii ''rosp'')) seenPage))
       = [ascii ''osprey'', ascii ''rosp'']
   \<and> distinct (completedIds (challenge (handleEvents
      [ToggleSeen (ascii ''osprey''), StartChallenge (ascii ''2026-11-03T12:00:00.000Z''),
       ToggleSeen (ascii ''rosp''), ToggleSeen (ascii ''rosp''), ToggleSeen (ascii ''rosp''),
       Count (ascii ''rosp''), Count (ascii ''pefa''), ToggleSeen (ascii ''osprey''),
       ToggleSeen (ascii ''osprey'')] emptyPage)))
   \<and> completedIds (challenge (handleEvents
      [ToggleSeen (ascii ''osprey''), StartChallenge (ascii ''2026-11-03T12:00:00.000Z''),
       ToggleSeen (ascii ''rosp''), ToggleSeen (ascii ''rosp''), ToggleSeen (ascii ''rosp''),
       Count (ascii ''rosp''), Count (ascii ''pefa''), ToggleSeen (ascii ''osprey''),
       ToggleSeen (ascii ''osprey'')] emptyPage))
    = [ascii ''rosp'', ascii ''pefa'', ascii ''osprey'']"
proof -
  have a: "distinct (completedIds (challenge seenPage)) \<and> length (completedIds (challenge seenPage)) \<le> 100"
    by (simp add: seenPage_def)
  have b: "completedIds (challenge emptyPage) = []"
    by (simp add: emptyPage_def)
  have c: "completedIds (challenge (handleEvent (ToggleSeen (ascii ''rosp'')) seenPage))
       = [ascii ''osprey'', ascii ''rosp'']"
    by (simp add: seenPage_def toggleSeen_def ensureUserRow_def Let_def ascii_def)
  from challenge_invariant [of seenPage "ToggleSeen (ascii ''rosp'')" emptyPage
      "[ToggleSeen (ascii ''osprey''), StartChallenge (ascii ''2026-11-03T12:00:00.000Z''),
       ToggleSeen (ascii ''rosp''), ToggleSeen (ascii ''rosp''), ToggleSeen (ascii ''rosp''),
       Count (ascii ''rosp''), Count (ascii ''pefa''), ToggleSeen (ascii ''osprey''),
       ToggleSeen (ascii ''osprey'')]"] a b c run_example
  show ?thesis by blast
qed

section \<open>Logs\<close>

subsection \<open>Generated identifiers\<close>

text \<open>
  \<open>toHex\<close> writes a number without hyphens and \<open>hexVal\<close> reads it back, so the
  hexadecimal form determines the number. The random part of an identifier is a string of
  hexadecimal digits and holds no hyphen; two identifiers with the same prefix are then
  equal exactly when the random parts and the times are equal.
\<close>

lemma hexDigit_cases:
  assumes "d < 16"
  shows "hexDigit d \<noteq> dash \<and> dash \<noteq> hexDigit d \<and> digitVal (hexDigit d) = d"
proof -
  from assms have "d = 0 \<or> d = 1 \<or> d = 2 \<or> d = 3 \<or> d = 4 \<or> d = 5 \<or> d = 6 \<or> d = 7 \<or> d = 8
      \<or> d = 9 \<or> d = 10 \<or> d = 11 \<or> d = 12 \<or> d = 13 \<or> d = 14 \<or> d = 15"
    by arith
  then show ?thesis
    by (elim disjE) (simp_all add: hexDigit_def digitVal_def dash_def)
qed

lemma toHex_props: "toHex n \<noteq> [] \<and> dash \<notin> set (toHex n) \<and> hexVal (toHex n) = n"
proof (induction n rule: toHex.induct)
  case (1 n)
  show ?case
  proof (cases "n < 16")
    case True
    then show ?thesis
      by (subst (1 2 3) toHex.simps) (simp add: hexDigit_cases hexVal_def)
  next
    case False
    from 1 [OF False] have IH: "toHex (n div 16) \<noteq> []" "dash \<notin> set (toHex (n div 16))"
      "hexVal (toHex (n div 16)) = n div 16"
      by simp_all
    have m: "n mod 16 < 16" by simp
    have e: "toHex n = toHex (n div 16) @ [hexDigit (n mod 16)]"
      using False by (subst toHex.simps) simp
    have "hexVal (toHex n) = 16 * hexVal (toHex (n div 16)) + digitVal (hexDigit (n mod 16))"
      by (simp add: e hexVal_def)
    also have "\<dots> = 16 * (n div 16) + n mod 16"
      using hexDigit_cases [OF m] by (simp add: IH)
    also have "\<dots> = n"
      by simp
    finally have v: "hexVal (toHex n) = n" .
    from IH hexDigit_cases [OF m] v show ?thesis
      by (simp add: e)
  qed
qed

lemma toHex_inj: "toHex n = toHex m \<Longrightarrow> n = m"
  by (metis toHex_props)

lemma toString16_inj:
  assumes "toString16 a = toString16 b"
  shows "a = b"
proof -
  have hd_neg: "hd (toString16 x) = dash" if "x < 0" for x
    using that by (simp add: toString16_def ascii_def dash_def)
  have hd_pos: "hd (toString16 x) \<noteq> dash" if "\<not> x < 0" for x
  proof -
    from toHex_props [of "nat x"] have "hd (toHex (nat x)) \<in> set (toHex (nat x))"
      by (intro hd_in_set) simp
    with toHex_props [of "nat x"] have "hd (toHex (nat x)) \<noteq> dash"
      by metis
    with that show ?thesis
      by (simp add: toString16_def)
  qed
  have sign: "a < 0 \<longleftrightarrow> b < 0"
    using hd_neg [of a] hd_neg [of b] hd_pos [of a] hd_pos [of b] assms by metis
  show ?thesis
  proof (cases "a < 0")
    case True
    with sign assms have "toHex (nat (- a)) = toHex (nat (- b))"
      by (simp add: toString16_def)
    then have "nat (- a) = nat (- b)"
      by (rule toHex_inj)
    with True sign show ?thesis by simp
  next
    case False
    with sign assms have "toHex (nat a) = toHex (nat b)"
      by (simp add: toString16_def)
    then have "nat a = nat b"
      by (rule toHex_inj)
    with False sign show ?thesis by simp
  qed
qed

lemma split_at_dash:
  assumes "dash \<notin> set a" "dash \<notin> set a'" "a @ dash # x = a' @ dash # x'"
  shows "a = a' \<and> x = x'"
  using assms
proof (induction a arbitrary: a')
  case Nil
  then show ?case by (cases a') auto
next
  case (Cons c a)
  then show ?case by (cases a') auto
qed

lemma uid_eq_iff:
  assumes "dash \<notin> set rnd" "dash \<notin> set rnd'"
  shows "uid p rnd now = uid p rnd' now' \<longleftrightarrow> rnd = rnd' \<and> now = now'"
proof
  assume "uid p rnd now = uid p rnd' now'"
  then have "rnd @ dash # toString16 now = rnd' @ dash # toString16 now'"
    by (simp add: uid_def ascii_def dash_def)
  with assms have "rnd = rnd' \<and> toString16 now = toString16 now'"
    by (rule split_at_dash)
  then show "rnd = rnd' \<and> now = now'"
    by (auto dest: toString16_inj)
next
  assume "rnd = rnd' \<and> now = now'"
  then show "uid p rnd now = uid p rnd' now'" by simp
qed

subsection \<open>Submitting the log form\<close>

lemma trim_eq_Nil_iff: "trim s = [] \<longleftrightarrow> (\<forall>c \<in> set s. isWhiteSpace c)"
proof
  assume "trim s = []"
  then have "\<forall>c \<in> set (dropWhile isWhiteSpace s). isWhiteSpace c"
    by (simp add: trim_def)
  then have "dropWhile isWhiteSpace s = []"
    by (metis hd_dropWhile hd_in_set)
  then show "\<forall>c \<in> set s. isWhiteSpace c"
    by simp
next
  assume "\<forall>c \<in> set s. isWhiteSpace c"
  then have "dropWhile isWhiteSpace s = []"
    by simp
  then show "trim s = []"
    by (simp add: trim_def del: dropWhile_eq_Nil_conv)
qed

lemma toString16_morning: "toString16 morning = ascii ''1a1a1ec9980''"
  by (simp add: toString16_def toHex.simps hexDigit_def morning_def ascii_def)

lemma uid_morning: "uid (ascii ''log'') (ascii ''8f3a'') morning = ascii ''log-8f3a-1a1a1ec9980''"
  by (simp add: uid_def toString16_morning) (simp add: ascii_def)

text \<open>
  Claim C9, as the code has it. Submitting the form with a species name or a location that
  is empty or white space after trimming changes nothing: the form and the state stay as
  they are, and so does the length of the log list. Otherwise the new list is the new
  entry, with trimmed fields and a generated identifier, followed by the previous entries;
  the user object and the challenge are unchanged. The identifier is the word log, the
  random digits and the time in hexadecimal, joined by hyphens. It is not compared with the identifiers
  of the list: the identifiers of the new list are distinct exactly when those of the
  previous list are and the generated one is not among them; and two generated
  identifiers are equal exactly when their random parts and their times are.
\<close>

theorem onSubmit_append:
  "(trim (speciesName_f form) = [] \<or> trim (location_f form) = [] \<longrightarrow>
      onSubmit form rnd now s = (form, s)
      \<and> length (logs (snd (onSubmit form rnd now s))) = length (logs s))
   \<and> (trim (speciesName_f form) \<noteq> [] \<and> trim (location_f form) \<noteq> [] \<longrightarrow>
      logs (snd (onSubmit form rnd now s))
        = \<lparr> id_l = uid (ascii ''log'') rnd now, date_l = date_f form,
            speciesName = trim (speciesName_f form), location_l = trim (location_f form),
            county_l = orUndefined (trim (county_f form)), kind = kind_f form,
            settings = orUndefined (trim (settings_f form)),
            notes_l = orUndefined (trim (notes_f form)) \<rparr> # logs s
      \<and> user (snd (onSubmit form rnd now s)) = user s
      \<and> challenge (snd (onSubmit form rnd now s)) = challenge s
      \<and> (distinct (map id_l (logs (snd (onSubmit form rnd now s)))) \<longleftrightarrow>
           distinct (map id_l (logs s)) \<and> uid (ascii ''log'') rnd now \<notin> id_l ` set (logs s)))
   \<and> (trim (speciesName_f form) = [] \<longleftrightarrow> blank (speciesName_f form))
   \<and> (trim (location_f form) = [] \<longleftrightarrow> blank (location_f form))
   \<and> (dash \<notin> set rnd \<and> dash \<notin> set rnd' \<longrightarrow>
        (uid (ascii ''log'') rnd now = uid (ascii ''log'') rnd' now') = (rnd = rnd' \<and> now = now'))"
proof -
  have 1: "trim (speciesName_f form) = [] \<or> trim (location_f form) = [] \<longrightarrow>
      onSubmit form rnd now s = (form, s)
      \<and> length (logs (snd (onSubmit form rnd now s))) = length (logs s)"
    by (auto simp: onSubmit_def)
  have 2: "trim (speciesName_f form) \<noteq> [] \<and> trim (location_f form) \<noteq> [] \<longrightarrow>
      logs (snd (onSubmit form rnd now s))
        = \<lparr> id_l = uid (ascii ''log'') rnd now, date_l = date_f form,
            speciesName = trim (speciesName_f form), location_l = trim (location_f form),
            county_l = orUndefined (trim (county_f form)), kind = kind_f form,
            settings = orUndefined (trim (settings_f form)),
            notes_l = orUndefined (trim (notes_f form)) \<rparr> # logs s
      \<and> user (snd (onSubmit form rnd now s)) = user s
      \<and> challenge (snd (onSubmit form rnd now s)) = challenge s
      \<and> (distinct (map id_l (logs (snd (onSubmit form rnd now s)))) \<longleftrightarrow>
           distinct (map id_l (logs s)) \<and> uid (ascii ''log'') rnd now \<notin> id_l ` set (logs s))"
    by (auto simp: onSubmit_def addLog_def)
  have 3: "trim x = [] \<longleftrightarrow> blank x" for x
    by (simp add: trim_eq_Nil_iff blank_def list_all_iff)
  have 4: "dash \<notin> set rnd \<and> dash \<notin> set rnd' \<longrightarrow>
        (uid (ascii ''log'') rnd now = uid (ascii ''log'') rnd' now') = (rnd = rnd' \<and> now = now')"
    using uid_eq_iff [of rnd rnd' "ascii ''log''" now now'] by blast
  from 1 2 3 4 show ?thesis
    by blast
qed

theorem onSubmit_append_witness:
  "onSubmit blankForm (ascii ''8f3a'') morning emptyPage = (blankForm, emptyPage)
   \<and> logs (snd (onSubmit ospreyForm (ascii ''8f3a'') morning emptyPage))
       = [\<lparr> id_l = ascii ''log-8f3a-1a1a1ec9980'', date_l = ascii ''2026-11-03'',
            speciesName = ascii ''Osprey'', location_l = ascii ''Lake Apopka'',
            county_l = Some (ascii ''Orange''), kind = Raptors, settings = None,
            notes_l = None \<rparr>]
   \<and> uid (ascii ''log'') (ascii ''8f3a'') morning \<noteq> uid (ascii ''log'') (ascii ''8f3a'') (morning + 1)"
proof -
  have a: "trim (speciesName_f blankForm) = []"
    by (simp add: blankForm_def trim_def ascii_def isWhiteSpace_def)
  have b: "trim (speciesName_f ospreyForm) = ascii ''Osprey''"
    "trim (location_f ospreyForm) = ascii ''Lake Apopka''"
    "trim (county_f ospreyForm) = ascii ''Orange''"
    "trim (settings_f ospreyForm) = []" "trim (notes_f ospreyForm) = []"
    by (simp_all add: ospreyForm_def trim_def ascii_def isWhiteSpace_def)
  have c: "ascii ''Osprey'' \<noteq> []" "ascii ''Lake Apopka'' \<noteq> []"
    by (simp_all add: ascii_def)
  have e: "orUndefined (ascii ''Orange'') = Some (ascii ''Orange'')" "orUndefined [] = None"
    by (simp_all add: orUndefined_def ascii_def)
  have f: "date_f ospreyForm = ascii ''2026-11-03''" "kind_f ospreyForm = Raptors"
    "logs emptyPage = []"
    by (simp_all add: ospreyForm_def emptyPage_def)
  have g: "dash \<notin> set (ascii ''8f3a'')"
    by (simp add: ascii_def dash_def)
  have h: "morning \<noteq> morning + 1"
    by simp
  note th = onSubmit_append [of blankForm "ascii ''8f3a''" morning emptyPage "ascii ''8f3a''" "morning + 1"]
  from th a
  have 1: "onSubmit blankForm (ascii ''8f3a'') morning emptyPage = (blankForm, emptyPage)"
    by blast
  from onSubmit_append [of ospreyForm "ascii ''8f3a''" morning emptyPage] b c
  have 2: "logs (snd (onSubmit ospreyForm (ascii ''8f3a'') morning emptyPage))
       = [\<lparr> id_l = ascii ''log-8f3a-1a1a1ec9980'', date_l = ascii ''2026-11-03'',
            speciesName = ascii ''Osprey'', location_l = ascii ''Lake Apopka'',
            county_l = Some (ascii ''Orange''), kind = Raptors, settings = None,
            notes_l = None \<rparr>]"
    by (simp add: uid_morning e f)
  from th g h
  have 3: "uid (ascii ''log'') (ascii ''8f3a'') morning \<noteq> uid (ascii ''log'') (ascii ''8f3a'') (morning + 1)"
    by blast
  from 1 2 3 show ?thesis by blast
qed

lemma onSubmit_osprey:
  "logs (snd (onSubmit ospreyForm (ascii ''8f3a'') morning s))
     = \<lparr> id_l = ascii ''log-8f3a-1a1a1ec9980'', date_l = ascii ''2026-11-03'',
            speciesName = ascii ''Osprey'', location_l = ascii ''Lake Apopka'',
            county_l = Some (ascii ''Orange''), kind = Raptors, settings = None,
            notes_l = None \<rparr> # logs s"
proof -
  have b: "trim (speciesName_f ospreyForm) = ascii ''Osprey''"
    "trim (location_f ospreyForm) = ascii ''Lake Apopka''"
    "trim (county_f ospreyForm) = ascii ''Orange''"
    "trim (settings_f ospreyForm) = []" "trim (notes_f ospreyForm) = []"
    by (simp_all add: ospreyForm_def trim_def ascii_def isWhiteSpace_def)
  have c: "ascii ''Osprey'' \<noteq> []" "ascii ''Lake Apopka'' \<noteq> []"
    by (simp_all add: ascii_def)
  have e: "orUndefined (ascii ''Orange'') = Some (ascii ''Orange'')" "orUndefined [] = None"
    by (simp_all add: orUndefined_def ascii_def)
  have f: "date_f ospreyForm = ascii ''2026-11-03''" "kind_f ospreyForm = Raptors"
    by (simp_all add: ospreyForm_def)
  show ?thesis
    by (simp add: onSubmit_def addLog_def b c e f uid_morning)
qed

text \<open>
  Claim C9 as worded says that the identifier of the new entry is fresh. Two submissions
  of the same form for which \<open>Math.random\<close> and \<open>Date.now\<close> return the same values
  produce two entries with the same identifier: the second identifier is the one the list
  already holds.
\<close>

theorem onSubmit_duplicate_id_counterexample:
  "map id_l (logs (snd (onSubmit ospreyForm (ascii ''8f3a'') morning
       (snd (onSubmit ospreyForm (ascii ''8f3a'') morning emptyPage)))))
     = [ascii ''log-8f3a-1a1a1ec9980'', ascii ''log-8f3a-1a1a1ec9980'']
   \<and> id_l (hd (logs (snd (onSubmit ospreyForm (ascii ''8f3a'') morning
       (snd (onSubmit ospreyForm (ascii ''8f3a'') morning emptyPage))))))
     \<in> id_l ` set (logs (snd (onSubmit ospreyForm (ascii ''8f3a'') morning emptyPage)))
   \<and> \<not> distinct (map id_l (logs (snd (onSubmit ospreyForm (ascii ''8f3a'') morning
       (snd (onSubmit ospreyForm (ascii ''8f3a'') morning emptyPage))))))"
  by (simp add: onSubmit_osprey emptyPage_def)

section \<open>The filtered list\<close>

lemma startsWith_iff: "startsWith s t \<longleftrightarrow> (\<exists>v. s = t @ v)"
  by (induction s t rule: startsWith.induct) auto

lemma includes_s_iff: "includes_s s t \<longleftrightarrow> isSubstring t s"
  unfolding isSubstring_def
proof (induction s)
  case Nil
  show ?case by auto
next
  case (Cons d s)
  show ?case
  proof
    assume "includes_s (d # s) t"
    then consider "startsWith (d # s) t" | "includes_s s t"
      by auto
    then show "\<exists>u v. d # s = u @ t @ v"
    proof cases
      case 1
      then obtain v where "d # s = t @ v"
        by (auto simp: startsWith_iff)
      then have "d # s = [] @ t @ v" by simp
      then show ?thesis by blast
    next
      case 2
      with Cons obtain u v where "s = u @ t @ v" by blast
      then have "d # s = (d # u) @ t @ v" by simp
      then show ?thesis by blast
    qed
  next
    assume "\<exists>u v. d # s = u @ t @ v"
    then obtain u v where uv: "d # s = u @ t @ v" by blast
    show "includes_s (d # s) t"
    proof (cases u)
      case Nil
      with uv have "startsWith (d # s) t"
        by (auto simp: startsWith_iff)
      then show ?thesis by simp
    next
      case (Cons a u')
      with uv have "s = u' @ t @ v" by simp
      with Cons.IH have "includes_s s t" by blast
      then show ?thesis by simp
    qed
  qed
qed

lemma includes_orEmpty:
  assumes "lc [] = []" "t \<noteq> []"
  shows "isSubstring t (lc (orEmpty x)) \<longleftrightarrow> (\<exists>y. x = Some y \<and> isSubstring t (lc y))"
proof (cases x)
  case None
  with assms show ?thesis
    by (simp add: orEmpty_def isSubstring_def)
next
  case (Some y)
  then show ?thesis
    by (simp add: orEmpty_def)
qed

text \<open>
  The three filters in a row are one filter by the conjunction of the three tests. In the
  code the month test starts with \<open>if (!m) return true\<close>, which passes every species
  when the selected month is the empty string.
\<close>

lemma filtered_filter:
  assumes "lc [] = []"
  shows "filtered lc species usr query fl =
     filter (\<lambda>s.
        (targetsOnly fl \<longrightarrow> (\<exists>u. map_of usr (id_s s) = Some u \<and> target u))
        \<and> (month fl \<noteq> [] \<longrightarrow> (\<forall>ms. months s = Some ms \<longrightarrow> map_of ms (month fl) = Some True))
        \<and> (lc (trim query) \<noteq> [] \<longrightarrow>
             isSubstring (lc (trim query)) (lc (common s))
           \<or> (\<exists>x. sci s = Some x \<and> isSubstring (lc (trim query)) (lc x))
           \<or> (\<exists>x. family s = Some x \<and> isSubstring (lc (trim query)) (lc x))
           \<or> (\<exists>x. habitat s = Some x \<and> isSubstring (lc (trim query)) (lc x))))
      species"
proof -
  let ?t = "lc (trim query)"
  have c1: "(if targetsOnly fl
             then (case map_of usr (id_s s) of None \<Rightarrow> False | Some u \<Rightarrow> target u) else True)
        \<longleftrightarrow> (targetsOnly fl \<longrightarrow> (\<exists>u. map_of usr (id_s s) = Some u \<and> target u))" for s :: Species
    by (auto split: option.splits)
  have c2: "(let m = month fl in if m = [] then True
               else case months s of None \<Rightarrow> True | Some ms \<Rightarrow> monthOn ms m)
        \<longleftrightarrow> (month fl \<noteq> [] \<longrightarrow> (\<forall>ms. months s = Some ms \<longrightarrow> map_of ms (month fl) = Some True))" for s :: Species
    by (auto simp: Let_def monthOn_def split: option.splits)
  have c3: "(if ?t = [] then True
             else includes_s (lc (common s)) ?t
                \<or> includes_s (lc (orEmpty (sci s))) ?t
                \<or> includes_s (lc (orEmpty (family s))) ?t
                \<or> includes_s (lc (orEmpty (habitat s))) ?t)
        \<longleftrightarrow> (?t \<noteq> [] \<longrightarrow>
             isSubstring ?t (lc (common s))
           \<or> (\<exists>x. sci s = Some x \<and> isSubstring ?t (lc x))
           \<or> (\<exists>x. family s = Some x \<and> isSubstring ?t (lc x))
           \<or> (\<exists>x. habitat s = Some x \<and> isSubstring ?t (lc x)))" for s :: Species
  proof (cases "?t = []")
    case True
    then show ?thesis by simp
  next
    case False
    with assms show ?thesis
      by (simp add: includes_s_iff includes_orEmpty)
  qed
  have "filtered lc species usr query fl =
      filter (\<lambda>s. (if targetsOnly fl
                     then (case map_of usr (id_s s) of None \<Rightarrow> False | Some u \<Rightarrow> target u) else True)
                \<and> (let m = month fl in if m = [] then True
                     else case months s of None \<Rightarrow> True | Some ms \<Rightarrow> monthOn ms m)
                \<and> (if ?t = [] then True
                    else includes_s (lc (common s)) ?t
                       \<or> includes_s (lc (orEmpty (sci s))) ?t
                       \<or> includes_s (lc (orEmpty (family s))) ?t
                       \<or> includes_s (lc (orEmpty (habitat s))) ?t))
        species"
    unfolding filtered_def Let_def filter_filter
    by (rule filter_cong) auto
  then show ?thesis
    unfolding c1 c2 c3 .
qed

lemma months_const_nonempty: "m \<in> set months_const \<Longrightarrow> m \<noteq> []"
  by (auto simp: months_const_def ascii_def)

text \<open>
  Claim C6. The selected month is a value of type \<open>Month\<close>, one of the twelve names of
  \<open>months_const\<close>. The filtered list is the catalog, in its order, restricted to the
  species that pass three tests: (1) when target-only is set, the species has a row with
  \<open>target = true\<close>; (2) when the species declares a month map, the selected month is
  present and true in the map; (3) when the trimmed and lower-cased query is not empty, it
  occurs in the lower-cased common name, scientific name, family or habitat (a missing
  field contains nothing). \<open>lc\<close> stands for \<open>toLowerCase\<close>, which maps the empty
  string to itself.
\<close>

theorem filtered_subsequence:
  assumes "lc [] = []" "month fl \<in> set months_const"
  shows "filtered lc species usr query fl =
     filter (\<lambda>s.
        (targetsOnly fl \<longrightarrow> (\<exists>u. map_of usr (id_s s) = Some u \<and> target u))
        \<and> (\<forall>ms. months s = Some ms \<longrightarrow> map_of ms (month fl) = Some True)
        \<and> (lc (trim query) \<noteq> [] \<longrightarrow>
             isSubstring (lc (trim query)) (lc (common s))
           \<or> (\<exists>x. sci s = Some x \<and> isSubstring (lc (trim query)) (lc x))
           \<or> (\<exists>x. family s = Some x \<and> isSubstring (lc (trim query)) (lc x))
           \<or> (\<exists>x. habitat s = Some x \<and> isSubstring (lc (trim query)) (lc x))))
      species"
proof -
  from assms(2) have "month fl \<noteq> []"
    by (rule months_const_nonempty)
  then show ?thesis
    unfolding filtered_filter [of lc, OF assms(1)] by simp
qed

theorem filtered_subsequence_witness:
  "filtered asciiLower [osprey, rosp, snailKite] sampleUser (ascii '' KITE'')
      \<lparr> targetsOnly = True, month = ascii ''Nov'' \<rparr> = [snailKite]
   \<and> filtered asciiLower [osprey, redKnot, snailKite] [] []
      \<lparr> targetsOnly = False, month = ascii ''Jun'' \<rparr> = [osprey, snailKite]
   \<and> filtered asciiLower [osprey, redKnot, snailKite] [] []
      \<lparr> targetsOnly = False, month = ascii ''Feb'' \<rparr> = [osprey, snailKite]
   \<and> filtered asciiLower [osprey, redKnot, snailKite] [] []
      \<lparr> targetsOnly = False, month = ascii ''Jan'' \<rparr> = [osprey, redKnot, snailKite]"
proof -
  have lc: "asciiLower [] = []"
    by (simp add: asciiLower_def)
  have m: "month \<lparr> targetsOnly = True, month = ascii ''Nov'' \<rparr> \<in> set months_const"
    "month \<lparr> targetsOnly = False, month = ascii ''Jun'' \<rparr> \<in> set months_const"
    "month \<lparr> targetsOnly = False, month = ascii ''Feb'' \<rparr> \<in> set months_const"
    "month \<lparr> targetsOnly = False, month = ascii ''Jan'' \<rparr> \<in> set months_const"
    by (simp_all add: months_const_def)
  have t: "asciiLower (trim (ascii '' KITE'')) = ascii ''kite''" "asciiLower (trim []) = []"
    by (simp_all add: trim_def ascii_def isWhiteSpace_def asciiLower_def)
  have k: "isSubstring (ascii ''kite'') (asciiLower (common snailKite))"
    by (simp add: includes_s_iff [symmetric] snailKite_def asciiLower_def ascii_def)
  have o: "\<not> isSubstring (ascii ''kite'') (asciiLower (common osprey))"
    by (simp add: includes_s_iff [symmetric] osprey_def asciiLower_def ascii_def)
  have f: "sci osprey = None" "family osprey = None" "habitat osprey = None"
    "months snailKite = Some allYear" "map_of allYear (ascii ''Nov'') = Some True"
    "map_of allYear (ascii ''Jun'') = Some True" "map_of allYear (ascii ''Feb'') = Some True"
    "map_of allYear (ascii ''Jan'') = Some True" "months osprey = None"
    by (simp_all add: ex_defs)
  have p: "months redKnot = Some [(ascii ''Jan'', True), (ascii ''Jun'', False)]"
    "map_of [(ascii ''Jan'', True), (ascii ''Jun'', False)] (ascii ''Jun'') = Some False"
    "map_of [(ascii ''Jan'', True), (ascii ''Jun'', False)] (ascii ''Feb'') = None"
    "map_of [(ascii ''Jan'', True), (ascii ''Jun'', False)] (ascii ''Jan'') = Some True"
    by (simp_all add: redKnot_def ascii_def)
  have q: "ascii ''Jun'' \<noteq> ascii ''Jan''" "ascii ''Feb'' \<noteq> ascii ''Jan''"
    "ascii ''Feb'' \<noteq> ascii ''Jun''"
    by (simp_all add: ascii_def)
  have u: "map_of sampleUser (id_s osprey) = Some (snd (sampleUser ! 1))"
    "map_of sampleUser (id_s snailKite) = Some (snd (sampleUser ! 0))"
    "map_of sampleUser (id_s rosp) = Some (snd (sampleUser ! 2))"
    "target (snd (sampleUser ! 0))" "target (snd (sampleUser ! 1))" "\<not> target (snd (sampleUser ! 2))"
    by (simp_all add: ex_defs sampleUser_def)
  have n: "ascii ''kite'' \<noteq> []"
    by (simp add: ascii_def)
  have a: "filtered asciiLower [osprey, rosp, snailKite] sampleUser (ascii '' KITE'')
      \<lparr> targetsOnly = True, month = ascii ''Nov'' \<rparr> = [snailKite]"
    unfolding filtered_subsequence [of asciiLower, OF lc m(1)] t
    by (simp add: k o f u n)
  have b: "filtered asciiLower [osprey, redKnot, snailKite] [] []
      \<lparr> targetsOnly = False, month = ascii ''Jun'' \<rparr> = [osprey, snailKite]"
    unfolding filtered_subsequence [of asciiLower, OF lc m(2)] t
    by (simp add: f p q)
  have c: "filtered asciiLower [osprey, redKnot, snailKite] [] []
      \<lparr> targetsOnly = False, month = ascii ''Feb'' \<rparr> = [osprey, snailKite]"
    unfolding filtered_subsequence [of asciiLower, OF lc m(3)] t
    by (simp add: f p q)
  have d: "filtered asciiLower [osprey, redKnot, snailKite] [] []
      \<lparr> targetsOnly = False, month = ascii ''Jan'' \<rparr> = [osprey, redKnot, snailKite]"
    unfolding filtered_subsequence [of asciiLower, OF lc m(4)] t
    by (simp add: f p q)
  from a b c d show ?thesis
    by (intro conjI)
qed

section \<open>Stats\<close>

subsection \<open>Rounding to a double\<close>

text \<open>
  \<open>binade\<close> is the exponent of the binade of a positive rational, so \<open>roundToDouble\<close>
  rounds to 53 significant bits; a value that is at most a natural number below \<open>2^53\<close>
  is rounded to at most that number.
\<close>

lemma quotient_of_pos:
  assumes "0 < x"
  obtains p q where "quotient_of x = (int p, int q)" "0 < p" "0 < q" "x = of_nat p / of_nat q"
proof -
  obtain a b where ab: "quotient_of x = (a, b)"
    by (cases "quotient_of x")
  then have b: "0 < b"
    by (rule quotient_of_denom_pos)
  from ab have x: "x = of_int a / of_int b"
    by (rule quotient_of_div)
  with assms b have a: "0 < a"
    by (simp add: zero_less_divide_iff)
  from a b ab x have "quotient_of x = (int (nat a), int (nat b))" "0 < nat a" "0 < nat b"
    "x = of_nat (nat a) / of_nat (nat b)"
    by simp_all
  then show thesis
    by (rule that)
qed

lemma two_powi_diff:
  "(2 :: rat) powi (int a - int b) = 2 ^ a / 2 ^ b"
  by (simp add: power_int_diff)

lemma binade_bounds:
  assumes "0 < x"
  shows "2 powi binade x \<le> x" and "x < 2 powi (binade x + 1)"
proof -
  obtain p q where pq: "quotient_of x = (int p, int q)" "0 < p" "0 < q"
    and x: "x = of_nat p / of_nat q"
    using assms by (rule quotient_of_pos)
  define bp where "bp = floorlog 2 p"
  define bq where "bq = floorlog 2 q"
  define d where "d = int bp - int bq"
  have p: "2 ^ (bp - 1) \<le> p" "p < 2 ^ bp"
    using floorlog_bounds [of p 2] pq by (simp_all add: bp_def)
  have q: "2 ^ (bq - 1) \<le> q" "q < 2 ^ bq"
    using floorlog_bounds [of q 2] pq by (simp_all add: bq_def)
  have bp: "0 < bp"
    using pq by (simp add: bp_def floorlog_def)
  have bq: "0 < bq"
    using pq by (simp add: bq_def floorlog_def)
  have b: "binade x = (if 2 powi d \<le> x then d else d - 1)"
    by (simp add: binade_def pq bp_def bq_def d_def Let_def)
  have rp: "(2 :: rat) ^ (bp - 1) \<le> of_nat p" "(of_nat p :: rat) < 2 ^ bp"
    using p by (metis of_nat_le_iff of_nat_numeral of_nat_power, metis of_nat_less_iff of_nat_numeral of_nat_power)
  have rq: "(2 :: rat) ^ (bq - 1) \<le> of_nat q" "(of_nat q :: rat) < 2 ^ bq"
    using q by (metis of_nat_le_iff of_nat_numeral of_nat_power, metis of_nat_less_iff of_nat_numeral of_nat_power)
  have qpos: "(0 :: rat) < of_nat q"
    using pq by simp
  have low: "2 powi (d - 1) \<le> x"
  proof -
    have "d - 1 = int (bp - 1) - int bq"
      using bp by (simp add: d_def)
    then have "(2 :: rat) powi (d - 1) = 2 ^ (bp - 1) / 2 ^ bq"
      by (simp only: two_powi_diff)
    also have "\<dots> \<le> of_nat p / 2 ^ bq"
      using rp by (simp add: divide_right_mono)
    also have "\<dots> \<le> of_nat p / of_nat q"
      using rq qpos by (simp add: frac_le)
    finally show ?thesis
      by (simp add: x)
  qed
  have up: "x < 2 powi (d + 1)"
  proof -
    have "x = of_nat p / of_nat q"
      by (rule x)
    also have "\<dots> < 2 ^ bp / of_nat q"
      using rp qpos by (simp add: divide_strict_right_mono)
    also have "\<dots> \<le> 2 ^ bp / 2 ^ (bq - 1)"
      using rq by (simp add: frac_le)
    also have "\<dots> = 2 powi (int bp - int (bq - 1))"
      by (simp only: two_powi_diff)
    also have "int bp - int (bq - 1) = d + 1"
      using bq by (simp add: d_def)
    finally show ?thesis .
  qed
  show "2 powi binade x \<le> x"
    using low by (simp add: b)
  show "x < 2 powi (binade x + 1)"
  proof (cases "2 powi d \<le> x")
    case True
    with up show ?thesis by (simp add: b)
  next
    case False
    then show ?thesis by (simp add: b)
  qed
qed

lemma roundHalfEven_le:
  assumes "x \<le> of_int N"
  shows "roundHalfEven x \<le> N"
proof -
  have n: "\<lfloor>x\<rfloor> \<le> N"
    using assms by (simp add: floor_le_iff)
  show ?thesis
  proof (cases "\<lfloor>x\<rfloor> = N")
    case True
    then have "of_int N \<le> x"
      by (metis of_int_floor_le)
    with assms have "x = of_int N" by simp
    then show ?thesis
      by (simp add: roundHalfEven_def)
  next
    case False
    with n have "\<lfloor>x\<rfloor> + 1 \<le> N" by simp
    then show ?thesis
      by (simp add: roundHalfEven_def Let_def)
  qed
qed

lemma roundHalfEven_ge:
  assumes "of_int N \<le> x"
  shows "N \<le> roundHalfEven x"
proof -
  have "N \<le> \<lfloor>x\<rfloor>"
    using assms by (simp add: le_floor_iff)
  then show ?thesis
    by (simp add: roundHalfEven_def Let_def)
qed

lemma roundToDouble_nonneg:
  assumes "0 \<le> x"
  shows "0 \<le> roundToDouble x"
proof (cases "x = 0")
  case True
  then show ?thesis by (simp add: roundToDouble_def)
next
  case False
  define k where "k = binade x - 52"
  have "of_int 0 \<le> x / 2 powi k"
    using assms by simp
  then have "0 \<le> roundHalfEven (x / 2 powi k)"
    by (rule roundHalfEven_ge)
  then have "0 \<le> (of_int (roundHalfEven (x / 2 powi k)) :: rat) * 2 powi k"
    by simp
  with False show ?thesis
    by (simp add: roundToDouble_def k_def Let_def)
qed

lemma roundToDouble_le:
  assumes "0 \<le> x" "x \<le> of_nat c" "c < 2 ^ 53"
  shows "roundToDouble x \<le> of_nat c"
proof (cases "x = 0")
  case True
  then show ?thesis by (simp add: roundToDouble_def)
next
  case False
  with assms have pos: "0 < x" by simp
  define k where "k = binade x - 52"
  have "2 powi binade x \<le> x"
    using pos by (rule binade_bounds)
  also have "x \<le> of_nat c"
    by fact
  also have "(of_nat c :: rat) < 2 ^ 53"
    using assms(3) by (metis of_nat_less_iff of_nat_numeral of_nat_power)
  finally have lt: "(2 :: rat) powi binade x < 2 powi 53"
    by simp
  have "binade x < 53"
    by (rule power_int_le_imp_less_exp [OF _ lt]) simp_all
  then have k: "k \<le> 0"
    by (simp add: k_def)
  define N where "N = int c * 2 ^ nat (- k)"
  have pk: "(2 :: rat) powi k = 1 / 2 ^ nat (- k)"
    using k by (simp add: power_int_def field_simps)
  have "x / 2 powi k \<le> of_nat c / 2 powi k"
    using assms(2) by (simp add: divide_right_mono)
  also have "\<dots> = of_int N"
    by (simp add: N_def pk)
  finally have "roundHalfEven (x / 2 powi k) \<le> N"
    by (rule roundHalfEven_le)
  then have "(of_int (roundHalfEven (x / 2 powi k)) :: rat) * 2 powi k \<le> of_int N * 2 powi k"
    by (simp add: mult_right_mono)
  also have "\<dots> = of_nat c"
    by (simp add: N_def pk)
  finally show ?thesis
    using False by (simp add: roundToDouble_def k_def Let_def)
qed

lemma pct_nonneg: "0 \<le> Math_round (fmul (fdiv (of_nat a) (of_nat b)) 100)"
proof -
  have "(0 :: rat) \<le> of_nat a / of_nat b"
    by simp
  then have "0 \<le> fdiv (of_nat a) (of_nat b)"
    unfolding fdiv_def by (rule roundToDouble_nonneg)
  then have "0 \<le> fdiv (of_nat a) (of_nat b) * 100"
    by simp
  then have "0 \<le> fmul (fdiv (of_nat a) (of_nat b)) 100"
    unfolding fmul_def by (rule roundToDouble_nonneg)
  then have "0 \<le> \<lfloor>fmul (fdiv (of_nat a) (of_nat b)) 100 + 1 / 2\<rfloor>"
    by simp
  then show ?thesis
    by (simp add: Math_round_def)
qed

lemma pct_le_100:
  assumes "a \<le> b" "0 < b"
  shows "Math_round (fmul (fdiv (of_nat a) (of_nat b)) 100) \<le> 100"
proof -
  define x1 where "x1 = fdiv (of_nat a) (of_nat b)"
  define x2 where "x2 = fmul x1 100"
  have q: "(0 :: rat) \<le> of_nat a / of_nat b" "(of_nat a :: rat) / of_nat b \<le> of_nat 1"
    using assms by simp_all
  have x1: "0 \<le> x1" "x1 \<le> 1"
    using roundToDouble_nonneg [OF q(1)] roundToDouble_le [OF q, simplified]
    by (simp_all add: x1_def fdiv_def)
  then have m: "0 \<le> x1 * 100" "x1 * 100 \<le> of_nat 100"
    by simp_all
  have "x2 \<le> 100"
    using roundToDouble_le [OF m, simplified] by (simp add: x2_def fmul_def)
  then have "x2 + 1 / 2 < of_int 101"
    by simp
  then have "\<lfloor>x2 + 1 / 2\<rfloor> < 101"
    by (simp only: floor_less_iff)
  then show ?thesis
    by (simp add: Math_round_def x2_def x1_def)
qed

text \<open>
  Evaluation: the binade is fixed by its two bounds, and rounding a fraction of integers
  is integer division.
\<close>

lemma Math_round_frac:
  assumes "0 < q"
  shows "Math_round (of_int p / of_int q) = (2 * p + q) div (2 * q)"
proof -
  have "(of_int p :: rat) / of_int q + 1 / 2 = of_int (2 * p + q) / of_int (2 * q)"
    using assms by (simp add: field_simps)
  then show ?thesis
    by (simp only: Math_round_def floor_divide_of_int_eq)
qed

lemma two_powi_less_imp_less:
  assumes "(2 :: rat) powi m < 2 powi n"
  shows "m < n"
proof (rule ccontr)
  assume "\<not> m < n"
  then have "n \<le> m" by simp
  then have "(2 :: rat) powi n \<le> 2 powi m"
    by (rule power_int_increasing) simp
  with assms show False by simp
qed

lemma binade_eqI:
  assumes "2 powi e \<le> x" "x < 2 powi (e + 1)"
  shows "binade x = e"
proof -
  have pos: "0 < x"
    using assms(1) by (rule less_le_trans [rotated]) simp
  note b = binade_bounds [OF pos]
  from b(1) assms(2) have "(2 :: rat) powi binade x < 2 powi (e + 1)"
    by (rule le_less_trans)
  then have 1: "binade x < e + 1"
    by (rule two_powi_less_imp_less)
  from assms(1) b(2) have "(2 :: rat) powi e < 2 powi (binade x + 1)"
    by (rule le_less_trans)
  then have 2: "e < binade x + 1"
    by (rule two_powi_less_imp_less)
  from 1 2 show ?thesis by simp
qed

lemma half_ineqs:
  assumes "0 < q"
  shows "(of_int r :: rat) / of_int q < 1 / 2 \<longleftrightarrow> 2 * r < q"
    and "1 / 2 < (of_int r :: rat) / of_int q \<longleftrightarrow> q < 2 * r"
proof -
  have q: "(0 :: rat) < of_int q"
    using assms by simp
  have "(of_int r :: rat) / of_int q < 1 / 2 \<longleftrightarrow> (of_int (2 * r) :: rat) < of_int q"
    using q by (simp add: field_simps)
  then show "(of_int r :: rat) / of_int q < 1 / 2 \<longleftrightarrow> 2 * r < q"
    by (simp only: of_int_less_iff)
  have "1 / 2 < (of_int r :: rat) / of_int q \<longleftrightarrow> (of_int q :: rat) < of_int (2 * r)"
    using q by (simp add: field_simps)
  then show "1 / 2 < (of_int r :: rat) / of_int q \<longleftrightarrow> q < 2 * r"
    by (simp only: of_int_less_iff)
qed

lemma roundHalfEven_frac:
  assumes "0 < q"
  shows "roundHalfEven (of_int p / of_int q) =
     (if 2 * (p mod q) < q then p div q
      else if q < 2 * (p mod q) then p div q + 1
      else if even (p div q) then p div q else p div q + 1)"
proof -
  define n where "n = p div q"
  define r where "r = p mod q"
  have fl: "\<lfloor>(of_int p :: rat) / of_int q\<rfloor> = n"
    by (simp add: floor_divide_of_int_eq n_def)
  have "p = n * q + r"
    by (simp add: n_def r_def)
  then have "(of_int p :: rat) = of_int n * of_int q + of_int r"
    by (metis of_int_add of_int_mult)
  then have fr: "(of_int p :: rat) / of_int q - of_int n = of_int r / of_int q"
    using assms by (simp add: field_simps)
  have "roundHalfEven (of_int p / of_int q) =
     (if 2 * r < q then n else if q < 2 * r then n + 1 else if even n then n else n + 1)"
    unfolding roundHalfEven_def Let_def fl fr half_ineqs [OF assms] ..
  then show ?thesis
    by (simp only: n_def r_def)
qed

lemma roundToDouble_eqI:
  assumes "2 powi e \<le> x" "x < 2 powi (e + 1)"
    and "x / 2 powi (e - 52) = of_int p / of_int q" "0 < q"
  shows "roundToDouble x =
     of_int (if 2 * (p mod q) < q then p div q
      else if q < 2 * (p mod q) then p div q + 1
      else if even (p div q) then p div q else p div q + 1) * 2 powi (e - 52)"
proof -
  have "x \<noteq> 0"
    using assms(1) by (metis not_le zero_less_numeral zero_less_power_int)
  then show ?thesis
    by (simp add: roundToDouble_def Let_def binade_eqI [OF assms(1, 2)] assms(3)
        roundHalfEven_frac [OF assms(4)])
qed

lemma double_2: "roundToDouble 2 = 2"
  by (subst roundToDouble_eqI [of 1 _ 4503599627370496 1]) simp_all

lemma double_200: "roundToDouble 200 = 200"
  by (subst roundToDouble_eqI [of 7 _ 7036874417766400 1]) simp_all

lemma Math_round_200: "Math_round 200 = 200"
  using Math_round_frac [of 1 200] by simp

lemma double_2_3: "roundToDouble (2 / 3) = 6004799503160661 / 9007199254740992"
  by (subst roundToDouble_eqI [of "-1" _ 18014398509481984 3]) simp_all

lemma double_66: "roundToDouble (6004799503160661 / 9007199254740992 * 100)
    = 2345624805922133 / 35184372088832"
  by (subst roundToDouble_eqI [of 6 _ 600479950316066100 128]) simp_all

lemma Math_round_66: "Math_round (2345624805922133 / 35184372088832) = 67"
  using Math_round_frac [of 35184372088832 2345624805922133] by simp

lemma double_29_200: "roundToDouble (29 / 200) = 5224175567749775 / 36028797018963968"
  by (subst roundToDouble_eqI [of "-3" _ 130604389193744384 25]) simp_all

lemma double_14: "roundToDouble (5224175567749775 / 36028797018963968 * 100)
    = 8162774324609023 / 562949953421312"
  by (subst roundToDouble_eqI [of 3 _ 130604389193744375 16]) simp_all

lemma Math_round_14: "Math_round (8162774324609023 / 562949953421312) = 14"
  using Math_round_frac [of 562949953421312 8162774324609023] by simp

lemma Math_round_29_2: "Math_round (29 / 200 * 100) = 15"
  using Math_round_frac [of 2 29] by simp

text \<open>
  The percentage is computed in doubles: for 29 of 200 the quotient \<open>0.145\<close> times 100
  is \<open>14.499999999999998\<close>, which \<open>Math.round\<close> takes to 14, where the exact
  value \<open>14.5\<close> would go to 15.
\<close>

lemma pct_29_of_200:
  "Math_round (fmul (fdiv 29 200) 100) = 14 \<and> Math_round (29 / 200 * 100) = 15"
proof -
  have "Math_round (fmul (fdiv 29 200) 100)
      = Math_round (roundToDouble (roundToDouble (29 / 200) * 100))"
    by (simp only: fdiv_def fmul_def)
  also have "\<dots> = Math_round (roundToDouble (5224175567749775 / 36028797018963968 * 100))"
    by (simp only: double_29_200)
  also have "\<dots> = Math_round (8162774324609023 / 562949953421312)"
    by (simp only: double_14)
  also have "\<dots> = 14"
    by (rule Math_round_14)
  finally show ?thesis
    using Math_round_29_2 by blast
qed

subsection \<open>Counting rows\<close>

lemma seen_keys:
  assumes "distinct (map fst usr)"
  shows "{k. \<exists>u. map_of usr k = Some u \<and> seen u} = fst ` set (filter (seen \<circ> snd) usr)"
  using assms by (force simp: map_of_eq_Some_iff [OF assms])

lemma seen_count_card:
  assumes "distinct (map fst usr)"
  shows "length (filter seen (map snd usr)) = card {k. \<exists>u. map_of usr k = Some u \<and> seen u}"
proof -
  have d: "distinct (map fst (filter (seen \<circ> snd) usr))"
    using assms by (rule distinct_map_filter)
  have "length (filter seen (map snd usr)) = length (map fst (filter (seen \<circ> snd) usr))"
    by (simp add: filter_map)
  also have "\<dots> = card (set (map fst (filter (seen \<circ> snd) usr)))"
    using d by (simp only: distinct_card)
  also have "\<dots> = card {k. \<exists>u. map_of usr k = Some u \<and> seen u}"
    by (simp add: seen_keys [OF assms])
  finally show ?thesis .
qed

lemma seen_count_le:
  assumes "distinct (map fst usr)"
    and "\<forall>(k, u) \<in> set usr. seen u \<longrightarrow> k \<in> id_s ` set species"
  shows "length (filter seen (map snd usr)) \<le> length species"
proof -
  have "{k. \<exists>u. map_of usr k = Some u \<and> seen u} \<subseteq> id_s ` set species"
    using assms(2) by (auto simp: map_of_eq_Some_iff [OF assms(1)])
  then have "card {k. \<exists>u. map_of usr k = Some u \<and> seen u} \<le> card (id_s ` set species)"
    by (simp add: card_mono)
  also have "\<dots> \<le> card (set species)"
    by (simp add: card_image_le)
  also have "\<dots> \<le> length species"
    by (rule card_length)
  finally show ?thesis
    by (simp only: seen_count_card [OF assms(1)])
qed

subsection \<open>The bounds\<close>

text \<open>
  \<open>total\<close> is the size of the catalog, \<open>seen\<close> the number of rows of the user
  object with \<open>seen = true\<close> (the number of keys with such a row), and \<open>pct\<close> is 0
  for an empty catalog and otherwise \<open>Math.round\<close> of the double
  \<open>(seen / total) * 100\<close>; it is never negative. Under the condition that every row
  with \<open>seen = true\<close> is the row of a species of the catalog, \<open>seen \<le> total\<close> and
  \<open>pct \<le> 100\<close>. The code does not establish that condition: \<open>stats\<close> counts the
  rows of the stored user object, whatever catalog has been loaded.
\<close>

lemma stats_in_catalog:
  "total (stats species usr) = length species
   \<and> seen_st (stats species usr) = length (filter seen (map snd usr))
   \<and> pct (stats species usr)
       = (if species = [] then 0
          else Math_round (roundToDouble (roundToDouble
                 (of_nat (seen_st (stats species usr)) / of_nat (total (stats species usr))) * 100)))
   \<and> 0 \<le> pct (stats species usr)
   \<and> (distinct (map fst usr) \<longrightarrow>
        seen_st (stats species usr) = card {k. \<exists>u. map_of usr k = Some u \<and> seen u})
   \<and> (distinct (map fst usr) \<and> (\<forall>(k, u) \<in> set usr. seen u \<longrightarrow> k \<in> id_s ` set species) \<longrightarrow>
        seen_st (stats species usr) \<le> total (stats species usr)
        \<and> pct (stats species usr) \<le> 100)"
proof -
  let ?n = "length species"
  let ?s = "length (filter seen (map snd usr))"
  have t: "total (stats species usr) = ?n"
    by (simp add: stats_def Let_def)
  have s: "seen_st (stats species usr) = ?s"
    by (simp add: stats_def Let_def)
  have q: "pct (stats species usr)
         = (if species = [] then 0
            else Math_round (roundToDouble (roundToDouble
                   (of_nat (seen_st (stats species usr)) / of_nat (total (stats species usr))) * 100)))"
    by (simp add: stats_def Let_def fdiv_def fmul_def)
  have p: "0 \<le> pct (stats species usr)"
    using pct_nonneg [of ?s ?n] by (simp add: stats_def Let_def)
  have c: "seen_st (stats species usr) = card {k. \<exists>u. map_of usr k = Some u \<and> seen u}"
    if "distinct (map fst usr)"
    using seen_count_card [OF that] by (simp only: s)
  have b: "seen_st (stats species usr) \<le> total (stats species usr) \<and> pct (stats species usr) \<le> 100"
    if "distinct (map fst usr) \<and> (\<forall>(k, u) \<in> set usr. seen u \<longrightarrow> k \<in> id_s ` set species)"
  proof -
    from that have le: "?s \<le> ?n"
      by (intro seen_count_le) simp_all
    have "pct (stats species usr) \<le> 100"
    proof (cases "?n = 0")
      case True
      then show ?thesis by (simp add: stats_def)
    next
      case False
      then have "0 < ?n" by simp
      with le pct_le_100 [of ?s ?n] show ?thesis
        by (simp add: stats_def Let_def)
    qed
    with le show ?thesis
      by (simp only: t s)
  qed
  from t s q p c b show ?thesis
    by blast
qed

lemma stats_in_catalog_example:
  "total (stats [osprey, rosp, snailKite] sampleUser) = 3
   \<and> seen_st (stats [osprey, rosp, snailKite] sampleUser) = 2
   \<and> pct (stats [osprey, rosp, snailKite] sampleUser) = 67
   \<and> pct (stats [osprey, rosp, snailKite] sampleUser) \<le> 100"
proof -
  have d: "distinct (map fst sampleUser)"
    by (simp add: sampleUser_def ascii_def)
  have m: "\<forall>(k, u) \<in> set sampleUser. seen u \<longrightarrow> k \<in> id_s ` set [osprey, rosp, snailKite]"
    by (simp add: sampleUser_def ex_defs)
  have t: "total (stats [osprey, rosp, snailKite] sampleUser) = 3"
    by (simp add: stats_def Let_def)
  have s: "seen_st (stats [osprey, rosp, snailKite] sampleUser) = 2"
    by (simp add: stats_def sampleUser_def Let_def)
  have "Math_round (roundToDouble (roundToDouble (of_nat 2 / of_nat 3) * 100))
      = Math_round (roundToDouble (6004799503160661 / 9007199254740992 * 100))"
    by (simp only: of_nat_numeral double_2_3)
  also have "\<dots> = Math_round (2345624805922133 / 35184372088832)"
    by (simp only: double_66)
  also have "\<dots> = 67"
    by (rule Math_round_66)
  finally have e: "Math_round (roundToDouble (roundToDouble (of_nat 2 / of_nat 3) * 100)) = 67" .
  note th = stats_in_catalog [of "[osprey, rosp, snailKite]" sampleUser, unfolded t s e]
  from th d m t s show ?thesis
    by simp
qed

text \<open>
  Claim C7 says that \<open>seen \<le> total\<close> and that \<open>pct\<close> is in \<open>[0, 100]\<close> for
  every catalog and user object. The code counts the rows with \<open>seen = true\<close> whether
  or not their species is in the catalog, and it does not clamp \<open>pct\<close>. With the
  one-species fallback catalog \<open>[snailKite]\<close> and the stored user object
  \<open>sampleUser\<close>, which holds two rows with \<open>seen = true\<close>, the code returns
  \<open>total = 1\<close>, \<open>seen = 2\<close> and \<open>pct = 200\<close>.
\<close>

theorem stats_fallback_catalog:
  "total (stats [snailKite] sampleUser) = 1
   \<and> seen_st (stats [snailKite] sampleUser) = 2
   \<and> total (stats [snailKite] sampleUser) < seen_st (stats [snailKite] sampleUser)
   \<and> pct (stats [snailKite] sampleUser) = 200
   \<and> 100 < pct (stats [snailKite] sampleUser)"
  by (simp add: stats_def sampleUser_def fdiv_def fmul_def double_2 double_200 Math_round_200)

end
